theory Spec2Isabelle
  imports Main "HOL-Library.Word"
begin

unbundle bit_operations_syntax

section \<open>JavaScript strings and thrown values\<close>

text \<open>
  A JavaScript string is a sequence of UTF-16 code units. The routes compare strings
  with \<open>===\<close>, test them for emptiness (truthiness) and \<open>trim\<close> them; a list of
  code units carries all three. \<open>js\<close> turns an ASCII literal of the source into its
  code units.
\<close>

type_synonym jsstring = "nat list"

definition js :: "string \<Rightarrow> jsstring" where
  "js s = map of_char s"

text \<open>
  \<open>String.prototype.trim\<close> removes the code units of the ECMAScript productions
  WhiteSpace and LineTerminator from both ends: TAB, LF, VT, FF, CR, SP, NBSP, the
  Unicode space separators and the byte order mark.
\<close>

definition isWhiteSpace :: "nat \<Rightarrow> bool" where
  "isWhiteSpace c \<longleftrightarrow>
     c \<in> {0x09, 0x0A, 0x0B, 0x0C, 0x0D, 0x20, 0xA0, 0x1680, 0x2028, 0x2029, 0x202F,
          0x205F, 0x3000, 0xFEFF}
     \<or> (0x2000 \<le> c \<and> c \<le> 0x200A)"

definition trim :: "jsstring \<Rightarrow> jsstring" where
  "trim s = rev (dropWhile isWhiteSpace (rev (dropWhile isWhiteSpace s)))"

text \<open>
  A thrown value. The handlers render it with
  \<open>error instanceof Error ? error.message : String(error)\<close>: an \<open>Error\<close> object
  (or one of the two subclasses the routes throw themselves) carries its message, any
  other thrown value is carried as the string \<open>String(error)\<close> gives.
\<close>

datatype thrown =
    ErrorObj jsstring
  | CaptchaError jsstring
  | InvalidParameterError jsstring
  | NonError jsstring

fun message_of :: "thrown \<Rightarrow> jsstring" where
  "message_of (ErrorObj m) = m"
| "message_of (CaptchaError m) = m"
| "message_of (InvalidParameterError m) = m"
| "message_of (NonError s) = s"


section \<open>cookie.ts: the single-slot active cookie\<close>

text \<open>
  The module state is the pair of module variables \<open>runtimeCookie\<close> and
  \<open>runtimeUpdatedAt\<close>; \<open>undefined\<close> is \<open>None\<close>. The configured cookie
  \<open>config.xiaohongshu.cookie\<close> is read, never written, and is a parameter.
\<close>

record cookie_module =
  runtimeCookie :: "jsstring option"
  runtimeUpdatedAt :: "int option"

text \<open>
  \<open>normalizeCookie\<close>: \<open>!cookie\<close> holds for \<open>undefined\<close> and for the empty string;
  \<open>trimmed || undefined\<close> turns an empty result into \<open>undefined\<close>.
\<close>

definition normalizeCookie :: "jsstring option \<Rightarrow> jsstring option" where
  "normalizeCookie cookie =
     (case cookie of
        None \<Rightarrow> None
      | Some c \<Rightarrow>
          if c = [] then None
          else (let trimmed = trim c in if trimmed = [] then None else Some trimmed))"

text \<open>Truthiness of a \<open>string | undefined\<close>.\<close>

fun truthy_str :: "jsstring option \<Rightarrow> bool" where
  "truthy_str None = False"
| "truthy_str (Some s) = (s \<noteq> [])"

text \<open>\<open>now\<close> is what \<open>Date.now()\<close> returns at the call.\<close>

definition setRuntimeCookie :: "jsstring option \<Rightarrow> int \<Rightarrow> cookie_module \<Rightarrow> cookie_module" where
  "setRuntimeCookie cookie now m =
     (let rc = normalizeCookie cookie
      in m\<lparr>runtimeCookie := rc,
            runtimeUpdatedAt := (if truthy_str rc then Some now else None)\<rparr>)"

definition clearRuntimeCookie :: "cookie_module \<Rightarrow> cookie_module" where
  "clearRuntimeCookie m = m\<lparr>runtimeCookie := None, runtimeUpdatedAt := None\<rparr>"

text \<open>\<open>runtimeCookie ?? config.xiaohongshu.cookie\<close>: the right side only for \<open>undefined\<close>.\<close>

definition getCookieValue :: "jsstring option \<Rightarrow> cookie_module \<Rightarrow> jsstring option" where
  "getCookieValue configCookie m =
     (case runtimeCookie m of Some c \<Rightarrow> Some c | None \<Rightarrow> configCookie)"

datatype CookieSource = Runtime | Config | NoSource

definition getCookieMeta ::
  "jsstring option \<Rightarrow> cookie_module \<Rightarrow> jsstring option \<times> CookieSource \<times> int option" where
  "getCookieMeta configCookie m =
     (getCookieValue configCookie m,
      (if truthy_str (runtimeCookie m) then Runtime
       else if truthy_str configCookie then Config else NoSource),
      runtimeUpdatedAt m)"


section \<open>JavaScript values\<close>

text \<open>
  The values the collect pipeline handles are parsed JSON payloads and structured clones
  returned by the browser: \<open>undefined\<close>, \<open>null\<close>, booleans, numbers, strings, arrays
  and plain objects. A number is carried as its IEEE 754 binary64 bit pattern; the
  pipeline never computes with one, it only tests truthiness and identity. An array or
  object carries its reference, the identity \<open>Set.prototype.has\<close> compares: two
  occurrences with one reference are one object, reached twice. An object is its list
  of properties; the first binding of a key is the property's value.
\<close>

type_synonym ref = nat

datatype json =
    JUndefined
  | JNull
  | JBool bool
  | JNum "64 word"
  | JStr jsstring
  | JArr ref "json list"
  | JObj ref "(jsstring \<times> json) list"

definition isNaN64 :: "64 word \<Rightarrow> bool" where
  "isNaN64 w \<longleftrightarrow>
     w AND 0x7FF0000000000000 = 0x7FF0000000000000 \<and> w AND 0x000FFFFFFFFFFFFF \<noteq> 0"

definition isZero64 :: "64 word \<Rightarrow> bool" where
  "isZero64 w \<longleftrightarrow> w AND 0x7FFFFFFFFFFFFFFF = 0"

text \<open>ToBoolean: falsy are \<open>undefined\<close>, \<open>null\<close>, \<open>false\<close>, \<open>+0\<close>, \<open>-0\<close>, \<open>NaN\<close> and \<open>""\<close>.\<close>

fun truthy :: "json \<Rightarrow> bool" where
  "truthy JUndefined = False"
| "truthy JNull = False"
| "truthy (JBool b) = b"
| "truthy (JNum w) = (\<not> isZero64 w \<and> \<not> isNaN64 w)"
| "truthy (JStr s) = (s \<noteq> [])"
| "truthy (JArr r xs) = True"
| "truthy (JObj r fs) = True"

fun nullish :: "json \<Rightarrow> bool" where
  "nullish JUndefined = True"
| "nullish JNull = True"
| "nullish v = False"

text \<open>
  SameValueZero, the equality of \<open>Set.prototype.has\<close>: primitives by value, with
  \<open>NaN\<close> equal to itself and \<open>+0\<close> equal to \<open>-0\<close>; objects and arrays by reference.
\<close>

fun sameValueZero :: "json \<Rightarrow> json \<Rightarrow> bool" where
  "sameValueZero JUndefined JUndefined = True"
| "sameValueZero JNull JNull = True"
| "sameValueZero (JBool a) (JBool b) = (a = b)"
| "sameValueZero (JNum a) (JNum b) =
     ((isNaN64 a \<and> isNaN64 b) \<or> (isZero64 a \<and> isZero64 b) \<or> a = b)"
| "sameValueZero (JStr a) (JStr b) = (a = b)"
| "sameValueZero (JArr r xs) (JArr r' ys) = (r = r')"
| "sameValueZero (JObj r fs) (JObj r' gs) = (r = r')"
| "sameValueZero u v = False"

text \<open>
  Property read \<open>v.k\<close> for the keys the pipeline reads (\<open>data\<close>, \<open>notes\<close>,
  \<open>note_list\<close>, \<open>noteList\<close>, \<open>note_id\<close>, \<open>noteId\<close>, \<open>id\<close>, \<open>has_more\<close>,
  \<open>hasMore\<close>): none of them is a property of a primitive or of an array, so only an
  object can hold one. The source reads a property of a value only after it has found
  the value truthy, or through \<open>?.\<close>, so the read never throws.
\<close>

fun property :: "json \<Rightarrow> jsstring \<Rightarrow> json" where
  "property (JObj r fs) k = (case map_of fs k of Some v \<Rightarrow> v | None \<Rightarrow> JUndefined)"
| "property v k = JUndefined"

text \<open>\<open>a || b\<close> and \<open>a ?? b\<close>.\<close>

definition or_js :: "json \<Rightarrow> json \<Rightarrow> json" where
  "or_js a b = (if truthy a then a else b)"

definition nullish_coalesce :: "json \<Rightarrow> json \<Rightarrow> json" where
  "nullish_coalesce a b = (if nullish a then b else a)"

section \<open>util.ts: merging the collect sources\<close>

text \<open>\<open>selectCollectNotes\<close>; \<open>xs.filter(Boolean)\<close> keeps the truthy elements.\<close>

definition selectCollectNotes :: "json \<Rightarrow> json list" where
  "selectCollectNotes collect =
     (if \<not> truthy collect then []
      else case collect of
        JArr r xs \<Rightarrow> filter truthy xs
      | _ \<Rightarrow>
         (let data = nullish_coalesce (property collect (js ''data'')) collect
          in case property data (js ''notes'') of
               JArr r xs \<Rightarrow> filter truthy xs
             | _ \<Rightarrow>
            (case property data (js ''note_list'') of
               JArr r xs \<Rightarrow> filter truthy xs
             | _ \<Rightarrow>
            (case property collect (js ''notes'') of
               JArr r xs \<Rightarrow> filter truthy xs
             | _ \<Rightarrow>
            (case property collect (js ''noteList'') of
               JArr r xs \<Rightarrow> filter truthy xs
             | _ \<Rightarrow> [])))))"

text \<open>\<open>note.note_id || note.noteId || note.id\<close>.\<close>

definition noteId_of :: "json \<Rightarrow> json" where
  "noteId_of note =
     or_js (or_js (property note (js ''note_id'')) (property note (js ''noteId''))) (property note (js ''id''))"

text \<open>
  The \<open>Set\<close> \<open>seen\<close> is the list of its elements in insertion order;
  \<open>seen.has(v)\<close> compares with SameValueZero.
\<close>

definition seen_has :: "json list \<Rightarrow> json \<Rightarrow> bool" where
  "seen_has seen v = list_ex (\<lambda>u. sameValueZero u v) seen"

text \<open>
  The inner loop \<open>for (const note of notes)\<close> of \<open>mergeCollectSources\<close>, on the pair
  of the array \<open>merged\<close> and the set \<open>seen\<close>.
\<close>

fun merge_notes :: "json list \<Rightarrow> json list \<times> json list \<Rightarrow> json list \<times> json list" where
  "merge_notes [] (merged, seen) = (merged, seen)"
| "merge_notes (note # notes) (merged, seen) =
     (if \<not> truthy note then merge_notes notes (merged, seen)
      else
        (let noteId = noteId_of note
         in if truthy noteId \<and> seen_has seen noteId then merge_notes notes (merged, seen)
            else merge_notes notes
                   (merged @ [note], if truthy noteId then seen @ [noteId] else seen)))"

text \<open>The outer loop \<open>for (const source of sources)\<close>.\<close>

fun merge_sources :: "json list \<Rightarrow> json list \<times> json list \<Rightarrow> json list \<times> json list" where
  "merge_sources [] st = st"
| "merge_sources (source # sources) st =
     merge_sources sources (merge_notes (selectCollectNotes source) st)"

text \<open>
  \<open>mergeCollectSources(...sources)\<close>. A call that does not return \<open>null\<close> allocates
  the object it returns, that object's \<open>data\<close> object and the array \<open>merged\<close>; they
  take the references \<open>a\<close>, \<open>a + 1\<close> and \<open>a + 2\<close>, which the caller supplies fresh:
  no value the program holds has one of them.
\<close>

definition mergeCollectSources :: "ref \<Rightarrow> json list \<Rightarrow> json" where
  "mergeCollectSources a sources =
     (let merged = fst (merge_sources sources ([], []))
      in if merged = [] then JNull
         else JObj a [(js ''data'', JObj (Suc a) [(js ''notes'', JArr (Suc (Suc a)) merged)])])"

text \<open>
  The words of the specification, for comparison with the loop, written without the
  functions above.
  \<^item> The id a note bears is the first truthy value among its properties \<open>note_id\<close>,
    \<open>noteId\<close> and \<open>id\<close>; a note none of whose three properties is truthy bears none.
  \<^item> The notes a source contributes are the truthy elements of the source itself when
    it is an array, and otherwise of the first array among \<open>data.notes\<close>,
    \<open>data.note_list\<close> (of its \<open>data\<close> property, or of itself when it has none),
    \<open>notes\<close> and \<open>noteList\<close>; a falsy source and a source with no such array
    contribute nothing.
  \<^item> Among notes in source order, the note at position \<open>i\<close> is kept when it bears no id,
    or no earlier note bears the same id (by SameValueZero).
\<close>

definition claimed_id :: "json \<Rightarrow> json option" where
  "claimed_id note =
     (case filter truthy (map (property note) [js ''note_id'', js ''noteId'', js ''id'']) of
        [] \<Rightarrow> None
      | v # _ \<Rightarrow> Some v)"

fun as_array :: "json \<Rightarrow> json list option" where
  "as_array (JArr r xs) = Some xs"
| "as_array v = None"

definition source_notes :: "json \<Rightarrow> json list" where
  "source_notes source =
     (if \<not> truthy source then []
      else case as_array source of
        Some xs \<Rightarrow> filter truthy xs
      | None \<Rightarrow>
         (let holder = (if nullish (property source (js ''data'')) then source
                        else property source (js ''data''))
          in case List.map_filter as_array
                    [property holder (js ''notes''), property holder (js ''note_list''),
                     property source (js ''notes''), property source (js ''noteList'')] of
               [] \<Rightarrow> []
             | xs # _ \<Rightarrow> filter truthy xs))"

definition contributed_notes :: "json list \<Rightarrow> json list" where
  "contributed_notes sources = concat (map source_notes sources)"

definition first_bearer :: "json list \<Rightarrow> nat \<Rightarrow> bool" where
  "first_bearer xs i \<longleftrightarrow>
     (case claimed_id (xs ! i) of
        None \<Rightarrow> True
      | Some v \<Rightarrow>
          list_all (\<lambda>j. case claimed_id (xs ! j) of
                          None \<Rightarrow> True
                        | Some u \<Rightarrow> \<not> sameValueZero u v) [0..<i])"

definition first_seen_wins :: "json list \<Rightarrow> json list" where
  "first_seen_wins xs = map (\<lambda>i. xs ! i) (filter (first_bearer xs) [0..<length xs])"

text \<open>The object \<open>{data: {notes}}\<close> allocated at \<open>a\<close>.\<close>

definition collect_of :: "ref \<Rightarrow> json list \<Rightarrow> json" where
  "collect_of a notes =
     JObj a [(js ''data'', JObj (Suc a) [(js ''notes'', JArr (Suc (Suc a)) notes)])]"

text \<open>
  Two relations for reasoning about the loop: the set \<open>seen\<close> covers the notes
  \<open>prev\<close> when it holds a truthy value exactly if one of them carries it as its id;
  a set is below another when the other has every value it has.
\<close>

definition seen_covers :: "json list \<Rightarrow> json list \<Rightarrow> bool" where
  "seen_covers prev seen \<longleftrightarrow>
     (\<forall>v. truthy v \<longrightarrow> (seen_has seen v \<longleftrightarrow> (\<exists>p\<in>set prev. sameValueZero (noteId_of p) v)))"

definition seen_le :: "json list \<Rightarrow> json list \<Rightarrow> bool" where
  "seen_le s0 s \<longleftrightarrow> (\<forall>v. seen_has s0 v \<longrightarrow> seen_has s v)"

text \<open>
  Notes for the examples: two that bear the ids \<open>"a"\<close> and \<open>"b"\<close>, one that bears
  \<open>"a"\<close> under another key, one with no id property, and two whose \<open>id\<close> is the
  number 0.
\<close>

definition note_a :: json where
  "note_a = JObj 1 [(js ''note_id'', JStr (js ''a''))]"

definition note_b :: json where
  "note_b = JObj 2 [(js ''noteId'', JStr (js ''b''))]"

definition note_a_again :: json where
  "note_a_again = JObj 3 [(js ''id'', JStr (js ''a'')), (js ''title'', JStr (js ''again''))]"

definition note_plain :: json where
  "note_plain = JObj 4 [(js ''title'', JStr (js ''no id''))]"

definition note_zero :: json where
  "note_zero = JObj 5 [(js ''id'', JNum 0), (js ''title'', JStr (js ''first''))]"

definition note_zero_again :: json where
  "note_zero_again = JObj 6 [(js ''id'', JNum 0), (js ''title'', JStr (js ''second''))]"

section \<open>The login route: QR login sessions\<close>

subsection \<open>Data\<close>

datatype Status = Pending | Success | Expired | Failed

text \<open>
  Handles of the things the browser automation and the runtime hand out: a page, the
  teardown function \<open>destory\<close> that comes with it, an element of a page, a timer
  (\<open>NodeJS.Timeout\<close>). A \<open>LoginSession\<close> object is known by its reference.
\<close>

type_synonym Page = nat
type_synonym Teardown = nat
type_synonym ElementHandle = nat
type_synonym Timeout = nat
type_synonym bytes = "nat list"

text \<open>
  The interface \<open>LoginSession\<close>; an optional field that is \<open>undefined\<close> is \<open>None\<close>.
  The field \<open>id\<close> is \<open>session_id\<close> here. \<open>createdAt\<close> is \<open>Date.now()\<close>, an integral
  number of milliseconds.
\<close>

record LoginSession =
  session_id :: jsstring
  status :: Status
  createdAt :: int
  page :: "Page option"
  destory :: "Teardown option"
  cookie :: "jsstring option"
  error :: "jsstring option"
  monitor :: "Timeout option"
  expireTimer :: "Timeout option"
  removalTimer :: "Timeout option"

definition SESSION_TTL :: int where
  "SESSION_TTL = 5 * 60 * 1000"

text \<open>
  The three closures the module hands to \<open>setInterval\<close> and \<open>setTimeout\<close>. Each
  captures the session object and reads its \<open>id\<close> when it runs. A timer is repeating
  or one-shot and carries its delay in milliseconds.
\<close>

datatype callback =
    MonitorTick ref
  | ExpireTick ref
  | RemoveSession ref

datatype timer_kind = Interval int | OneShot int

text \<open>
  The state of the process, as far as the module reads or writes it: the
  \<open>LoginSession\<close> objects by identity, the table \<open>loginSessions\<close> from ids to
  objects, the armed timers, the \<open>cookies()\<close> reads of monitor ticks that have not
  settled yet (each with the session object its continuation holds), the teardown
  functions invoked so far, the debug log, and the state of cookie.ts.
\<close>

record world =
  heap :: "ref \<Rightarrow> LoginSession"
  nextRef :: ref
  loginSessions :: "jsstring \<rightharpoonup> ref"
  timers :: "Timeout \<rightharpoonup> timer_kind \<times> callback"
  nextTimeout :: Timeout
  pendingReads :: "(ref \<times> Page) list"
  teardowns :: "Teardown list"
  debugLog :: "jsstring list"
  cookieModule :: cookie_module

text \<open>A cookie of the page's cookie jar; the module reads its name and value.\<close>

record browser_cookie =
  cookie_name :: jsstring
  cookie_value :: jsstring

text \<open>
  What a page answers during one \<open>captureQRCode\<close>: \<open>page.$(selector)\<close> throws, finds
  nothing or finds an element; \<open>element.screenshot\<close> and \<open>page.screenshot\<close> throw
  or return the PNG bytes.
\<close>

record page_behaviour =
  query :: "jsstring \<Rightarrow> thrown + ElementHandle option"
  element_screenshot :: "ElementHandle \<Rightarrow> thrown + bytes"
  page_screenshot :: "thrown + bytes"

text \<open>
  The outcomes of the external calls one operation makes: \<open>randomUUID()\<close>,
  \<open>Date.now()\<close>, \<open>getPuppeteerPage\<close> (throws, or a page and its teardown),
  \<open>page.setViewport\<close>, \<open>page.waitForSelector\<close> and \<open>destory()\<close> (each throws or
  not), \<open>page.cookies()\<close>, and the pages' answers to a capture.
\<close>

record browser_env =
  randomUUID :: jsstring
  date_now :: int
  getPuppeteerPage :: "thrown + Page \<times> Teardown"
  setViewport :: "thrown option"
  waitForSelector :: "thrown option"
  destory_outcome :: "thrown option"
  page_cookies :: "thrown + browser_cookie list"
  capture :: "Page \<Rightarrow> page_behaviour"

subsection \<open>Timers and session objects\<close>

definition update_session :: "ref \<Rightarrow> (LoginSession \<Rightarrow> LoginSession) \<Rightarrow> world \<Rightarrow> world" where
  "update_session r f w = w\<lparr>heap := (heap w)(r := f (heap w r))\<rparr>"

text \<open>\<open>setInterval\<close> and \<open>setTimeout\<close> arm a timer and return its fresh handle.\<close>

definition arm_timer :: "timer_kind \<Rightarrow> callback \<Rightarrow> world \<Rightarrow> Timeout \<times> world" where
  "arm_timer k cb w =
     (nextTimeout w,
      w\<lparr>timers := (timers w)(nextTimeout w \<mapsto> (k, cb)), nextTimeout := Suc (nextTimeout w)\<rparr>)"

text \<open>\<open>clearInterval\<close> and \<open>clearTimeout\<close>.\<close>

definition clear_timer :: "Timeout \<Rightarrow> world \<Rightarrow> world" where
  "clear_timer t w = w\<lparr>timers := (timers w)(t := None)\<rparr>"

subsection \<open>cleanupSessionResources\<close>

text \<open>
  The four steps of \<open>cleanupSessionResources(session)\<close>, in the order of the source.
  The teardown is awaited; the model runs the cleanup to its end before anything else.
\<close>

definition cleanup_monitor :: "ref \<Rightarrow> world \<Rightarrow> world" where
  "cleanup_monitor r w =
     (case monitor (heap w r) of
        Some t \<Rightarrow> update_session r (\<lambda>s. s\<lparr>monitor := None\<rparr>) (clear_timer t w)
      | None \<Rightarrow> w)"

definition cleanup_expireTimer :: "ref \<Rightarrow> world \<Rightarrow> world" where
  "cleanup_expireTimer r w =
     (case expireTimer (heap w r) of
        Some t \<Rightarrow> update_session r (\<lambda>s. s\<lparr>expireTimer := None\<rparr>) (clear_timer t w)
      | None \<Rightarrow> w)"

definition cleanup_page :: "browser_env \<Rightarrow> ref \<Rightarrow> world \<Rightarrow> world" where
  "cleanup_page e r w =
     (case (page (heap w r), destory (heap w r)) of
        (Some p, Some d) \<Rightarrow>
          (let w1 = w\<lparr>teardowns := teardowns w @ [d]\<rparr>;
               w2 = (case destory_outcome e of
                       None \<Rightarrow> w1
                     | Some err \<Rightarrow>
                         w1\<lparr>debugLog := debugLog w1 @
                           [js ''Failed to close Xiaohongshu login browser: '' @ message_of err]\<rparr>)
           in update_session r (\<lambda>s. s\<lparr>page := None, destory := None\<rparr>) w2)
      | _ \<Rightarrow> w)"

definition cleanup_removalTimer :: "ref \<Rightarrow> world \<Rightarrow> world" where
  "cleanup_removalTimer r w =
     (case removalTimer (heap w r) of
        None \<Rightarrow>
          (let (t, w1) = arm_timer (OneShot (2 * 60 * 1000)) (RemoveSession r) w
           in update_session r (\<lambda>s. s\<lparr>removalTimer := Some t\<rparr>) w1)
      | Some t \<Rightarrow> w)"

definition cleanupSessionResources :: "browser_env \<Rightarrow> ref \<Rightarrow> world \<Rightarrow> world" where
  "cleanupSessionResources e r w =
     cleanup_removalTimer r (cleanup_page e r (cleanup_expireTimer r (cleanup_monitor r w)))"

subsection \<open>createLoginSession\<close>

text \<open>
  The result is the thrown value, or the new session object. \<open>getPuppeteerPage\<close> and
  \<open>setViewport\<close> stand before the \<open>try\<close>; only a failing \<open>waitForSelector\<close> is
  caught, and the catch awaits \<open>destory()\<close> before it rethrows.
\<close>

definition createLoginSession :: "browser_env \<Rightarrow> world \<Rightarrow> world \<times> (thrown + ref)" where
  "createLoginSession e w =
     (let id = randomUUID e
      in case getPuppeteerPage e of
           Inl err \<Rightarrow> (w, Inl err)
         | Inr (p, d) \<Rightarrow>
            (case setViewport e of
               Some err \<Rightarrow> (w, Inl err)
             | None \<Rightarrow>
                (case waitForSelector e of
                   Some err \<Rightarrow>
                     (let w1 = w\<lparr>teardowns := teardowns w @ [d]\<rparr>
                      in case destory_outcome e of
                           Some err' \<Rightarrow> (w1, Inl err')
                         | None \<Rightarrow> (w1, Inl err))
                 | None \<Rightarrow>
                     (let r = nextRef w;
                          session = \<lparr>session_id = id, status = Pending, createdAt = date_now e,
                                     page = Some p, destory = Some d, cookie = None, error = None,
                                     monitor = None, expireTimer = None, removalTimer = None\<rparr>;
                          w1 = w\<lparr>heap := (heap w)(r := session), nextRef := Suc r\<rparr>;
                          (t1, w2) = arm_timer (Interval 3000) (MonitorTick r) w1;
                          w3 = update_session r (\<lambda>s. s\<lparr>monitor := Some t1\<rparr>) w2;
                          (t2, w4) = arm_timer (OneShot SESSION_TTL) (ExpireTick r) w3;
                          w5 = update_session r (\<lambda>s. s\<lparr>expireTimer := Some t2\<rparr>) w4;
                          w6 = w5\<lparr>loginSessions := (loginSessions w5)(id \<mapsto> r)\<rparr>
                      in (w6, Inr r)))))"

subsection \<open>monitorSession\<close>

fun join :: "jsstring \<Rightarrow> jsstring list \<Rightarrow> jsstring" where
  "join sep [] = []"
| "join sep [x] = x"
| "join sep (x # y # ys) = x @ sep @ join sep (y # ys)"

text \<open>
  \<open>monitorSession\<close> up to its first \<open>await\<close>: the guard, and the \<open>cookies()\<close> read
  it starts on the session's page. The result is the read left pending, with the
  session object the continuation holds.
\<close>

definition monitorSession_guard :: "world \<Rightarrow> jsstring \<Rightarrow> (ref \<times> Page) option" where
  "monitorSession_guard w sessionId =
     (case loginSessions w sessionId of
        None \<Rightarrow> None
      | Some r \<Rightarrow>
          if status (heap w r) \<noteq> Pending then None
          else (case page (heap w r) of None \<Rightarrow> None | Some p \<Rightarrow> Some (r, p)))"

definition monitorSession_begin :: "world \<Rightarrow> jsstring \<Rightarrow> world" where
  "monitorSession_begin w sessionId =
     (case monitorSession_guard w sessionId of
        None \<Rightarrow> w
      | Some rd \<Rightarrow> w\<lparr>pendingReads := pendingReads w @ [rd]\<rparr>)"

text \<open>
  \<open>monitorSession\<close> from the point where \<open>await session.page.cookies()\<close> settles:
  the rest of the \<open>try\<close> block when it resolves, the \<open>catch\<close> block when it rejects.
  Neither looks at the table or at the status again.
\<close>

definition monitorSession_resume :: "browser_env \<Rightarrow> ref \<Rightarrow> world \<Rightarrow> world" where
  "monitorSession_resume e r w =
     (case page_cookies e of
        Inr cookies \<Rightarrow>
          if list_ex (\<lambda>c. cookie_name c = js ''web_session'') cookies then
            (let c = join (js ''; '') (map (\<lambda>c. cookie_name c @ js ''='' @ cookie_value c) cookies);
                 w1 = update_session r (\<lambda>s. s\<lparr>cookie := Some c\<rparr>) w;
                 w2 = w1\<lparr>cookieModule := setRuntimeCookie (Some c) (date_now e) (cookieModule w1)\<rparr>;
                 w3 = update_session r (\<lambda>s. s\<lparr>status := Success\<rparr>) w2
             in cleanupSessionResources e r w3)
          else w
      | Inl err \<Rightarrow>
          (let w1 = update_session r (\<lambda>s. s\<lparr>status := Failed\<rparr>) w;
               w2 = update_session r (\<lambda>s. s\<lparr>error := Some (message_of err)\<rparr>) w1
           in cleanupSessionResources e r w2))"

text \<open>A whole call of \<open>monitorSession\<close> whose read settles before anything else runs.\<close>

definition monitorSession :: "browser_env \<Rightarrow> world \<Rightarrow> jsstring \<Rightarrow> world" where
  "monitorSession e w sessionId =
     (case monitorSession_guard w sessionId of
        None \<Rightarrow> w
      | Some (r, p) \<Rightarrow> monitorSession_resume e r w)"

subsection \<open>markSessionExpired\<close>

definition markSessionExpired :: "browser_env \<Rightarrow> world \<Rightarrow> jsstring \<Rightarrow> world" where
  "markSessionExpired e w sessionId =
     (case loginSessions w sessionId of
        None \<Rightarrow> w
      | Some r \<Rightarrow>
          (let w1 = (if status (heap w r) = Pending
                     then update_session r (\<lambda>s. s\<lparr>status := Expired\<rparr>) w else w)
           in cleanupSessionResources e r w1))"

subsection \<open>Responses\<close>

text \<open>
  The bodies the handler answers with. \<open>ctx.json\<close> drops a property whose value is
  \<open>undefined\<close>, so an absent property is \<open>None\<close>. \<open>ImageBody\<close> is the
  \<open>new Response(buffer)\<close> with content type \<open>image/png\<close>; \<open>LandingPage\<close> is the
  HTML page rendered for a session id.
\<close>

record status_projection =
  body_id :: jsstring
  body_status :: Status
  body_cookie :: "jsstring option"
  body_error :: "jsstring option"
  body_expiresAt :: int

datatype body =
    StatusMissing
  | StatusBody status_projection
  | ErrorBody jsstring "jsstring option"
  | ImageBody bytes
  | LandingPage jsstring

datatype response = Response nat body

subsection \<open>captureQRCode and serveQRCode\<close>

definition selectors :: "jsstring list" where
  "selectors =
     [js ''.login-container img'', js ''.login-qrcode img'', js ''.reds-login-qrcode img'',
      js ''img[src*=\"qrcode\"]'', js ''canvas[aria-label*=qrcode]'']"

text \<open>
  The loop of \<open>captureQRCode\<close> over the selectors still to try, then the full-page
  screenshot. A throwing \<open>page.$\<close> is not caught; a throwing element screenshot is
  caught and logged, and the loop goes on. The result carries the debug lines logged.
\<close>

fun capture_loop :: "page_behaviour \<Rightarrow> jsstring list \<Rightarrow> jsstring list \<times> (thrown + bytes)" where
  "capture_loop b [] = ([], page_screenshot b)"
| "capture_loop b (selector # rest) =
     (case query b selector of
        Inl err \<Rightarrow> ([], Inl err)
      | Inr None \<Rightarrow> capture_loop b rest
      | Inr (Some element) \<Rightarrow>
          (case element_screenshot b element of
             Inr buffer \<Rightarrow> ([], Inr buffer)
           | Inl err \<Rightarrow>
               (let (logs, res) = capture_loop b rest
                in ((js ''Failed to screenshot '' @ selector @ js '': '' @ message_of err) # logs,
                    res))))"

definition captureQRCode :: "page_behaviour \<Rightarrow> jsstring list \<times> (thrown + bytes)" where
  "captureQRCode b = capture_loop b selectors"

definition session_inactive :: response where
  "session_inactive = Response 404 (ErrorBody (js ''session_inactive'') None)"

definition serveQRCode :: "browser_env \<Rightarrow> world \<Rightarrow> jsstring \<Rightarrow> world \<times> response" where
  "serveQRCode e w sessionId =
     (case loginSessions w sessionId of
        None \<Rightarrow> (w, session_inactive)
      | Some r \<Rightarrow>
          if status (heap w r) \<noteq> Pending then (w, session_inactive)
          else (case page (heap w r) of
                  None \<Rightarrow> (w, session_inactive)
                | Some p \<Rightarrow>
                    (let (logs, res) = captureQRCode (capture e p);
                         w1 = w\<lparr>debugLog := debugLog w @ logs\<rparr>
                     in case res of
                          Inr buffer \<Rightarrow> (w1, Response 200 (ImageBody buffer))
                        | Inl err \<Rightarrow>
                            (w1, Response 500
                                   (ErrorBody (js ''qrcode_unavailable'') (Some (message_of err)))))))"

subsection \<open>serveStatus\<close>

definition serveStatus :: "world \<Rightarrow> jsstring \<Rightarrow> response" where
  "serveStatus w sessionId =
     (case loginSessions w sessionId of
        None \<Rightarrow> Response 404 StatusMissing
      | Some r \<Rightarrow>
          (let session = heap w r
           in Response 200
                (StatusBody
                   \<lparr>body_id = session_id session,
                    body_status = status session,
                    body_cookie = (if status session = Success then cookie session else None),
                    body_error = error session,
                    body_expiresAt = createdAt session + SESSION_TTL\<rparr>)))"

subsection \<open>The route handler\<close>

text \<open>
  \<open>handler(ctx)\<close> with the route parameters \<open>sessionId\<close> and \<open>action\<close>; the result
  is the response, or the value thrown to the framework.
\<close>

definition handler ::
  "browser_env \<Rightarrow> world \<Rightarrow> jsstring option \<Rightarrow> jsstring option \<Rightarrow> world \<times> (thrown + response)" where
  "handler e w sessionId action =
     (case (if truthy_str sessionId then sessionId else None) of
        None \<Rightarrow>
          (case createLoginSession e w of
             (w1, Inl err) \<Rightarrow> (w1, Inl err)
           | (w1, Inr r) \<Rightarrow> (w1, Inr (Response 200 (LandingPage (session_id (heap w1 r))))))
      | Some sid \<Rightarrow>
          if action = Some (js ''qrcode'') then
            (let (w1, res) = serveQRCode e w sid in (w1, Inr res))
          else if action = Some (js ''status'') then (w, Inr (serveStatus w sid))
          else (w, Inr (Response 404 (ErrorBody (js ''unsupported_action'') None))))"

subsection \<open>The scheduler\<close>

text \<open>
  Everything the module does is a reaction to an inbound request, to a timer that
  fires, or to a pending \<open>cookies()\<close> read that settles. A one-shot timer is no longer
  armed once it has fired; the session keeps its handle until the cleanup.
\<close>

datatype event =
    Get "jsstring option" "jsstring option"
  | Fire Timeout
  | Settle nat

fun run_callback :: "browser_env \<Rightarrow> callback \<Rightarrow> world \<Rightarrow> world" where
  "run_callback e (MonitorTick r) w = monitorSession_begin w (session_id (heap w r))"
| "run_callback e (ExpireTick r) w = markSessionExpired e w (session_id (heap w r))"
| "run_callback e (RemoveSession r) w =
     w\<lparr>loginSessions := (loginSessions w)(session_id (heap w r) := None)\<rparr>"

fun step :: "browser_env \<times> event \<Rightarrow> world \<Rightarrow> world" where
  "step (e, Get sessionId action) w = fst (handler e w sessionId action)"
| "step (e, Fire t) w =
     (case timers w t of
        None \<Rightarrow> w
      | Some (Interval ms, cb) \<Rightarrow> run_callback e cb w
      | Some (OneShot ms, cb) \<Rightarrow> run_callback e cb (clear_timer t w))"
| "step (e, Settle n) w =
     (if n < length (pendingReads w)
      then monitorSession_resume e (fst (pendingReads w ! n))
             (w\<lparr>pendingReads := take n (pendingReads w) @ drop (Suc n) (pendingReads w)\<rparr>)
      else w)"

fun run :: "(browser_env \<times> event) list \<Rightarrow> world \<Rightarrow> world" where
  "run [] w = w"
| "run (x # xs) w = run xs (step x w)"

text \<open>
  The words of the specification for the two cases of a QR request: the session is
  inactive when it is missing, or not \<open>pending\<close>, or has no live page; it is active
  with page \<open>p\<close> when it is in the table, \<open>pending\<close>, and \<open>p\<close> is its live page.
\<close>

definition inactive_session :: "world \<Rightarrow> jsstring \<Rightarrow> bool" where
  "inactive_session w sessionId \<longleftrightarrow>
     (case loginSessions w sessionId of
        None \<Rightarrow> True
      | Some r \<Rightarrow> status (heap w r) \<noteq> Pending \<or> page (heap w r) = None)"

definition active_session :: "world \<Rightarrow> jsstring \<Rightarrow> Page \<Rightarrow> bool" where
  "active_session w sessionId p \<longleftrightarrow>
     (case loginSessions w sessionId of
        None \<Rightarrow> False
      | Some r \<Rightarrow> status (heap w r) = Pending \<and> page (heap w r) = Some p)"

text \<open>The process at start: no session, no timer, no runtime cookie.\<close>

definition blank_session :: LoginSession where
  "blank_session =
     \<lparr>session_id = [], status = Pending, createdAt = 0, page = None, destory = None,
      cookie = None, error = None, monitor = None, expireTimer = None, removalTimer = None\<rparr>"

definition initial_world :: world where
  "initial_world =
     \<lparr>heap = (\<lambda>r. blank_session), nextRef = 0, loginSessions = Map.empty, timers = Map.empty,
      nextTimeout = 0, pendingReads = [], teardowns = [], debugLog = [],
      cookieModule = \<lparr>runtimeCookie = None, runtimeUpdatedAt = None\<rparr>\<rparr>"

text \<open>
  The words of the specification for the payload invariant of one session: the cookie
  is populated exactly when the status is \<open>success\<close>, the error exactly when it is
  \<open>failed\<close>.
\<close>

definition payload_ok :: "LoginSession \<Rightarrow> bool" where
  "payload_ok s \<longleftrightarrow>
     ((cookie s \<noteq> None) = (status s = Success)) \<and> ((error s \<noteq> None) = (status s = Failed))"

subsection \<open>A concrete browser\<close>

text \<open>
  An environment to run the model on: \<open>getPuppeteerPage\<close> hands out page 7 with
  teardown 9, nothing throws, the cookie jar is empty, and on the page the first
  selector finds element 1, whose screenshot throws, and the second finds element 2,
  whose screenshot succeeds.
\<close>

definition example_page :: page_behaviour where
  "example_page =
     \<lparr>query = (\<lambda>s. if s = js ''.login-container img'' then Inr (Some 1)
                      else if s = js ''.login-qrcode img'' then Inr (Some 2)
                      else Inr None),
      element_screenshot = (\<lambda>el. if el = 2 then Inr [137, 80, 78, 71]
                                   else Inl (ErrorObj (js ''Node is detached''))),
      page_screenshot = Inr [137, 80]\<rparr>"

definition example_env :: browser_env where
  "example_env =
     \<lparr>randomUUID = js ''s1'', date_now = 1000, getPuppeteerPage = Inr (7, 9),
      setViewport = None, waitForSelector = None, destory_outcome = None,
      page_cookies = Inr [], capture = (\<lambda>p. example_page)\<rparr>"

text \<open>The process after one successful \<open>GET /login\<close>.\<close>

definition example_world :: world where
  "example_world = fst (createLoginSession example_env initial_world)"

text \<open>
  Two schedules. In the first, the monitor fires twice before the first \<open>cookies()\<close>
  read settles; the first read resolves with the \<open>web_session\<close> cookie, then the
  second rejects because the page has been closed. In the second, the expire timer fires
  while a \<open>cookies()\<close> read is pending, and the read rejects afterwards.
\<close>

definition logged_in :: browser_env where
  "logged_in =
     example_env\<lparr>page_cookies := Inr [\<lparr>cookie_name = js ''web_session'', cookie_value = js ''abc''\<rparr>],
                 date_now := 7000\<rparr>"

definition page_closed :: browser_env where
  "page_closed = example_env\<lparr>page_cookies := Inl (ErrorObj (js ''Target closed''))\<rparr>"

definition overlapping_ticks :: "(browser_env \<times> event) list" where
  "overlapping_ticks =
     [(example_env, Get None None), (example_env, Fire 0), (example_env, Fire 0),
      (logged_in, Settle 0), (page_closed, Settle 0)]"

definition tick_across_expiry :: "(browser_env \<times> event) list" where
  "tick_across_expiry =
     [(example_env, Get None None), (example_env, Fire 0), (example_env, Fire 1),
      (page_closed, Settle 0)]"

section \<open>util.ts: the collect pipeline\<close>

definition hasMoreCollectFlag :: "json \<Rightarrow> json" where
  "hasMoreCollectFlag collect =
     (if \<not> truthy collect then JNull
      else
        (let data = nullish_coalesce (property collect (js ''data'')) collect
         in case property data (js ''has_more'') of
              JBool b \<Rightarrow> JBool b
            | _ \<Rightarrow>
           (case property data (js ''hasMore'') of
              JBool b \<Rightarrow> JBool b
            | _ \<Rightarrow> JNull)))"

text \<open>
  The outcomes of the external calls of one run of the callback \<open>getUserCollect\<close>
  hands to \<open>cache.tryGet\<close>, in the order the source makes them:
  \<^item> \<open>collectFromHttp\<close>: what \<open>fetchCollectFromHtml\<close> returns (it catches every
    error and returns \<open>null\<close> then);
  \<^item> \<open>openPage\<close>: whether \<open>getPuppeteerPage\<close> throws;
  \<^item> \<open>goto\<close>, \<open>waitForTab\<close>: whether \<open>page.goto\<close> and the \<open>waitForSelector\<close>
    for the tab throw;
  \<^item> \<open>captcha\<close>: \<open>page.$('#red-captcha')\<close> throws, or tells whether the element is there;
  \<^item> \<open>onLoginPage\<close>: whether \<open>page.url()\<close> matches \<open>/passport|login/\<close>;
  \<^item> \<open>ssrCollect\<close>: reading \<open>__INITIAL_STATE__\<close> throws, or the value
    \<open>extractCollectFromState\<close> makes of the state read;
  \<^item> \<open>lockIcon\<close>: whether \<open>page.$('.lock-icon')\<close> in \<open>triggerCollectByClick\<close> throws
    (the click and the wait after it are caught there);
  \<^item> \<open>scroll\<close>: whether the uncaught \<open>page.evaluate\<close> of \<open>scrollCollectList\<close> throws;
  \<^item> \<open>collectPayloads\<close>: the intercepted API payloads parsed when the pipeline merges them;
  \<^item> \<open>domCollect\<close>: \<open>extractCollectFromDom\<close> throws, or its result;
  \<^item> \<open>teardown\<close>: whether \<open>destory()\<close> in the \<open>finally\<close> block throws;
  \<^item> \<open>alloc\<close>: the first reference that is free when the \<open>try\<close> block is entered.
    Its four calls of \<open>mergeCollectSources\<close> take three references each, in the
    order the source makes the calls.
\<close>

record collect_env =
  collectFromHttp :: json
  openPage :: "thrown option"
  goto :: "thrown option"
  waitForTab :: "thrown option"
  captcha :: "thrown + bool"
  onLoginPage :: bool
  ssrCollect :: "thrown + json"
  lockIcon :: "thrown option"
  scroll :: "thrown option"
  collectPayloads :: "json list"
  domCollect :: "thrown + json"
  teardown :: "thrown option"
  alloc :: ref

text \<open>The messages of the three errors the pipeline throws itself, as code units.\<close>

definition captcha_message :: jsstring where
  "captcha_message =
     [23567, 32418, 20070, 39118, 25511, 26657, 39564, 65292, 35831, 31245, 21518, 20877, 35797]"

definition cookie_needed_message :: jsstring where
  "cookie_needed_message =
     [35775, 38382, 25910, 34255, 20869, 23481, 38656, 35201, 37197, 32622, 32] @ js ''XIAOHONGSHU_COOKIE''"

definition no_collect_message :: jsstring where
  "no_collect_message =
     [26080, 27861, 33719, 21462, 25910, 34255, 20869, 23481, 65292, 35831, 31245, 21518, 20877,
      35797]"

text \<open>
  \<open>collectResult = mergeCollectSources(collectResult, x) ?? collectResult\<close>, the call
  allocating at \<open>a\<close>.
\<close>

definition merge_into :: "ref \<Rightarrow> json \<Rightarrow> json \<Rightarrow> json" where
  "merge_into a collectResult x =
     nullish_coalesce (mergeCollectSources a [collectResult, x]) collectResult"

text \<open>
  The \<open>try\<close> block. The result is the value of the variable \<open>collectResult\<close> when the
  block is left, and the value the block returns or throws.
\<close>

definition collect_try :: "collect_env \<Rightarrow> json \<times> (thrown + json)" where
  "collect_try e =
     (let r0 = collectFromHttp e
      in case goto e of Some err \<Rightarrow> (r0, Inl err) | None \<Rightarrow>
        (case waitForTab e of Some err \<Rightarrow> (r0, Inl err) | None \<Rightarrow>
        (case captcha e of
           Inl err \<Rightarrow> (r0, Inl err)
         | Inr True \<Rightarrow> (r0, Inl (CaptchaError captcha_message))
         | Inr False \<Rightarrow>
        (if onLoginPage e then (r0, Inl (InvalidParameterError cookie_needed_message))
         else
        (case ssrCollect e of Inl err \<Rightarrow> (r0, Inl err) | Inr ssr \<Rightarrow>
        (let r1 = merge_into (alloc e) r0 ssr
         in case (if \<not> truthy r1 then lockIcon e else None) of
              Some err \<Rightarrow> (r1, Inl err)
            | None \<Rightarrow>
        (case scroll e of Some err \<Rightarrow> (r1, Inl err) | None \<Rightarrow>
        (let apiCollect = mergeCollectSources (alloc e + 3) (collectPayloads e);
             r2 = merge_into (alloc e + 6) r1 apiCollect
         in case domCollect e of Inl err \<Rightarrow> (r2, Inl err) | Inr domNotes \<Rightarrow>
        (let r3 = merge_into (alloc e + 9) r2 domNotes
         in if \<not> truthy r3 then (r3, Inl (InvalidParameterError no_collect_message))
            else (r3, Inr r3))))))))))"

text \<open>
  The callback: the early return on a complete HTTP result, the page opened before the
  \<open>try\<close>, the \<open>catch\<close> that returns \<open>collectResult\<close> if it is truthy and rethrows
  otherwise, and the \<open>finally\<close> whose teardown, when it throws, replaces the outcome.
\<close>

definition getUserCollect :: "collect_env \<Rightarrow> thrown + json" where
  "getUserCollect e =
     (if truthy (collectFromHttp e) \<and> hasMoreCollectFlag (collectFromHttp e) = JBool False
      then Inr (collectFromHttp e)
      else case openPage e of
        Some err \<Rightarrow> Inl err
      | None \<Rightarrow>
         (let (collectResult, outcome) = collect_try e;
              caught = (case outcome of
                          Inr v \<Rightarrow> Inr v
                        | Inl err \<Rightarrow> if truthy collectResult then Inr collectResult else Inl err)
          in case teardown e of Some err \<Rightarrow> Inl err | None \<Rightarrow> caught))"

text \<open>
  The words of the specification, for comparison with the callback, written without
  the functions above.
  \<^item> A source yields a non-empty result when it contributes at least one note.
  \<^item> The HTTP result is complete when it is truthy and the flag \<open>has_more\<close> of its
    \<open>data\<close> property (of itself when it has none) is the boolean \<open>false\<close>, or that
    flag is no boolean and \<open>hasMore\<close> is the boolean \<open>false\<close>.
  \<^item> The result accumulated from the HTTP result \<open>h\<close> and the sources merged so far
    is \<open>h\<close> itself as long as no source has contributed a note, and otherwise a new
    object \<open>{data: {notes}}\<close> that holds the first-seen-wins merge of the notes of
    all these sources.
\<close>

definition yields :: "json \<Rightarrow> bool" where
  "yields x \<longleftrightarrow> source_notes x \<noteq> []"

fun is_boolean :: "json \<Rightarrow> bool" where
  "is_boolean (JBool b) = True"
| "is_boolean v = False"

definition complete_result :: "json \<Rightarrow> bool" where
  "complete_result h \<longleftrightarrow>
     truthy h \<and>
     (let holder = (if nullish (property h (js ''data'')) then h else property h (js ''data''))
      in if is_boolean (property holder (js ''has_more''))
         then property holder (js ''has_more'') = JBool False
         else property holder (js ''hasMore'') = JBool False)"

definition accumulated :: "ref \<Rightarrow> json \<Rightarrow> json list \<Rightarrow> json" where
  "accumulated a h sources =
     (if contributed_notes sources = [] then h
      else collect_of a (first_seen_wins (contributed_notes sources)))"

text \<open>
  The result accumulated once the SSR state has been merged, once the API payloads
  have been merged, and once the DOM scrape has been merged; the last call of
  \<open>mergeCollectSources\<close> before each of these points allocates at \<open>alloc\<close>,
  \<open>alloc + 6\<close> and \<open>alloc + 9\<close>.
\<close>

definition with_ssr :: "collect_env \<Rightarrow> json \<Rightarrow> json" where
  "with_ssr e s = accumulated (alloc e) (collectFromHttp e) [collectFromHttp e, s]"

definition with_api :: "collect_env \<Rightarrow> json \<Rightarrow> json" where
  "with_api e s =
     accumulated (alloc e + 6) (collectFromHttp e) ([collectFromHttp e, s] @ collectPayloads e)"

definition with_dom :: "collect_env \<Rightarrow> json \<Rightarrow> json \<Rightarrow> json" where
  "with_dom e s d =
     accumulated (alloc e + 9) (collectFromHttp e)
       ([collectFromHttp e, s] @ collectPayloads e @ [d])"

text \<open>
  The browser run: the HTTP result is not complete, the page opens, and the teardown
  succeeds. The page is loaded when, in a browser run, the navigation and the wait for
  the tab succeed, the captcha element is absent and the page is not the login page.
\<close>

definition browser_run :: "collect_env \<Rightarrow> bool" where
  "browser_run e \<longleftrightarrow>
     \<not> complete_result (collectFromHttp e) \<and> openPage e = None \<and> teardown e = None"

definition page_loaded :: "collect_env \<Rightarrow> bool" where
  "page_loaded e \<longleftrightarrow>
     browser_run e \<and> goto e = None \<and> waitForTab e = None \<and> captcha e = Inr False
     \<and> \<not> onLoginPage e"

text \<open>An example: a run in which nothing throws and nothing is found.\<close>

definition quiet_collect :: collect_env where
  "quiet_collect =
     \<lparr>collectFromHttp = JNull, openPage = None, goto = None, waitForTab = None,
      captcha = Inr False, onLoginPage = False, ssrCollect = Inr JNull, lockIcon = None,
      scroll = None, collectPayloads = [], domCollect = Inr JNull, teardown = None,
      alloc = 100\<rparr>"

text \<open>
  Three runs that end in a throw: the HTTP fetch has found a note and opening the browser
  page throws; an API payload with a note has been intercepted and the scroll throws
  before the payloads are merged; the SSR state has yielded a note, no step throws, and
  the teardown throws.
\<close>

definition launch_fails :: collect_env where
  "launch_fails =
     quiet_collect\<lparr>collectFromHttp := collect_of 10 [note_a],
                   openPage := Some (ErrorObj (js ''Failed to launch the browser process''))\<rparr>"

definition scroll_fails :: collect_env where
  "scroll_fails =
     quiet_collect\<lparr>collectPayloads := [collect_of 10 [note_a]],
                   scroll := Some (ErrorObj (js ''Execution context was destroyed''))\<rparr>"

definition teardown_fails :: collect_env where
  "teardown_fails =
     quiet_collect\<lparr>ssrCollect := Inr (collect_of 10 [note_a]),
                   teardown := Some (ErrorObj (js ''Protocol error: Connection closed''))\<rparr>"

text \<open>
  Runs that return: the HTTP result is complete; the HTTP fetch has found a note and the
  scroll throws; the SSR state yields a note, an API payload another and the DOM scrape
  throws; nothing throws and the SSR state, one API payload and the DOM scrape each
  contribute notes. And two runs that raise with nothing found: the captcha element is
  on the page; the browser has been sent to the login page.
\<close>

definition complete_http :: collect_env where
  "complete_http =
     quiet_collect\<lparr>collectFromHttp :=
                     JObj 10 [(js ''data'', JObj 11 [(js ''notes'', JArr 12 [note_a]),
                                                    (js ''has_more'', JBool False)])],
                   openPage := Some (ErrorObj (js ''Failed to launch the browser process''))\<rparr>"

definition http_then_throw :: collect_env where
  "http_then_throw =
     quiet_collect\<lparr>collectFromHttp := collect_of 10 [note_a],
                   scroll := Some (ErrorObj (js ''Execution context was destroyed''))\<rparr>"

definition ssr_then_throw :: collect_env where
  "ssr_then_throw =
     quiet_collect\<lparr>ssrCollect := Inr (collect_of 10 [note_b]),
                   collectPayloads := [collect_of 20 [note_a]],
                   domCollect := Inl (ErrorObj (js ''Execution context was destroyed''))\<rparr>"

definition all_succeed :: collect_env where
  "all_succeed =
     quiet_collect\<lparr>ssrCollect := Inr (collect_of 10 [note_b]),
                   collectPayloads := [collect_of 20 [note_a, note_b]],
                   domCollect := Inr (collect_of 30 [note_a_again, note_plain])\<rparr>"

definition captcha_shown :: collect_env where
  "captcha_shown = quiet_collect\<lparr>captcha := Inr True\<rparr>"

definition sent_to_login :: collect_env where
  "sent_to_login = quiet_collect\<lparr>onLoginPage := True\<rparr>"

section \<open>Properties of the cookie holder\<close>

lemma all_dropWhile_iff: "(\<forall>x\<in>set (dropWhile P xs). P x) \<longleftrightarrow> (\<forall>x\<in>set xs. P x)"
proof
  assume a: "\<forall>x\<in>set (dropWhile P xs). P x"
  have "dropWhile P xs = []"
  proof (rule ccontr)
    assume ne: "dropWhile P xs \<noteq> []"
    then have "\<not> P (hd (dropWhile P xs))" by (rule hd_dropWhile)
    moreover have "hd (dropWhile P xs) \<in> set (dropWhile P xs)" using ne by simp
    ultimately show False using a by blast
  qed
  then show "\<forall>x\<in>set xs. P x" by (simp add: dropWhile_eq_Nil_conv)
next
  assume "\<forall>x\<in>set xs. P x"
  then show "\<forall>x\<in>set (dropWhile P xs). P x" by (blast dest: set_dropWhileD)
qed

lemma trim_eq_Nil_iff: "trim s = [] \<longleftrightarrow> list_all isWhiteSpace s"
  by (simp add: trim_def list_all_iff dropWhile_eq_Nil_conv all_dropWhile_iff)

lemma normalizeCookie_None_iff:
  "normalizeCookie c = None \<longleftrightarrow> (case c of None \<Rightarrow> True | Some s \<Rightarrow> list_all isWhiteSpace s)"
  by (cases c) (auto simp: normalizeCookie_def Let_def trim_eq_Nil_iff)

lemma normalizeCookie_Some:
  "normalizeCookie c = Some t \<Longrightarrow> t \<noteq> [] \<and> (\<exists>s. c = Some s \<and> t = trim s)"
  by (cases c) (auto simp: normalizeCookie_def Let_def split: if_splits)

text \<open>
  C10. The active cookie prefers the runtime value. After \<open>setRuntimeCookie\<close> with a
  string that is not whitespace only, \<open>getCookieValue\<close> returns that string trimmed,
  whatever the configured cookie is. After \<open>setRuntimeCookie\<close> with \<open>undefined\<close>, the
  empty string or a whitespace-only string, the module state is the one
  \<open>clearRuntimeCookie\<close> leaves, and \<open>getCookieValue\<close> returns the configured cookie.
\<close>

theorem runtime_cookie_preferred:
  "(\<not> list_all isWhiteSpace s \<longrightarrow>
      getCookieValue cfg (setRuntimeCookie (Some s) now m) = Some (trim s))
   \<and> (c = None \<or> (\<exists>t. c = Some t \<and> list_all isWhiteSpace t) \<longrightarrow>
        setRuntimeCookie c now m = clearRuntimeCookie m
        \<and> runtimeCookie (setRuntimeCookie c now m) = None
        \<and> getCookieValue cfg (setRuntimeCookie c now m) = cfg)
   \<and> getCookieValue cfg (clearRuntimeCookie m) = cfg"
proof (intro conjI impI)
  assume "\<not> list_all isWhiteSpace s"
  then have "normalizeCookie (Some s) = Some (trim s)"
    by (auto simp: normalizeCookie_def Let_def trim_eq_Nil_iff)
  then show "getCookieValue cfg (setRuntimeCookie (Some s) now m) = Some (trim s)"
    by (simp add: getCookieValue_def setRuntimeCookie_def)
next
  assume "c = None \<or> (\<exists>t. c = Some t \<and> list_all isWhiteSpace t)"
  then have n: "normalizeCookie c = None"
    by (auto simp: normalizeCookie_None_iff)
  show "setRuntimeCookie c now m = clearRuntimeCookie m"
    by (simp add: setRuntimeCookie_def clearRuntimeCookie_def n)
  show "runtimeCookie (setRuntimeCookie c now m) = None"
    by (simp add: setRuntimeCookie_def n)
  show "getCookieValue cfg (setRuntimeCookie c now m) = cfg"
    by (simp add: getCookieValue_def setRuntimeCookie_def n)
next
  show "getCookieValue cfg (clearRuntimeCookie m) = cfg"
    by (simp add: getCookieValue_def clearRuntimeCookie_def)
qed

theorem runtime_cookie_preferred_witness:
  "getCookieValue (Some (js ''a=1''))
      (setRuntimeCookie (Some (js '' web_session=abc '')) 7
         \<lparr>runtimeCookie = None, runtimeUpdatedAt = None\<rparr>)
     = Some (js ''web_session=abc'')
   \<and> setRuntimeCookie (Some (js ''  '')) 7 \<lparr>runtimeCookie = Some (js ''x=y''), runtimeUpdatedAt = Some 3\<rparr>
     = clearRuntimeCookie \<lparr>runtimeCookie = Some (js ''x=y''), runtimeUpdatedAt = Some 3\<rparr>
   \<and> getCookieValue (Some (js ''a=1''))
        (setRuntimeCookie (Some (js ''  '')) 7
           \<lparr>runtimeCookie = Some (js ''x=y''), runtimeUpdatedAt = Some 3\<rparr>)
     = Some (js ''a=1'')"
proof -
  have ws: "list_all isWhiteSpace (js ''  '')"
    by (simp add: js_def isWhiteSpace_def)
  have nws: "\<not> list_all isWhiteSpace (js '' web_session=abc '')"
    by (simp add: js_def isWhiteSpace_def)
  have tr: "trim (js '' web_session=abc '') = js ''web_session=abc''"
    by (simp add: trim_def js_def isWhiteSpace_def)
  show ?thesis
    using runtime_cookie_preferred
      [of "js '' web_session=abc ''" "Some (js ''a=1'')" 7
          "\<lparr>runtimeCookie = None, runtimeUpdatedAt = None\<rparr>"
          "Some (js ''  '')"]
      runtime_cookie_preferred
      [of "js '' web_session=abc ''" "Some (js ''a=1'')" 7
          "\<lparr>runtimeCookie = Some (js ''x=y''), runtimeUpdatedAt = Some 3\<rparr>"
          "Some (js ''  '')"]
      ws nws tr
    by simp
qed

section \<open>Properties of the merge\<close>

lemma nan_not_zero: "isNaN64 w \<Longrightarrow> \<not> isZero64 w"
proof
  assume n: "isNaN64 w" and z: "isZero64 w"
  have "w AND 0x7FF0000000000000 = (w AND 0x7FFFFFFFFFFFFFFF) AND 0x7FF0000000000000"
    by (simp add: and.assoc)
  also have "\<dots> = 0" using z by (simp add: isZero64_def)
  finally show False using n by (simp add: isNaN64_def)
qed
lemma svz_truthy: "sameValueZero a b \<Longrightarrow> truthy a = truthy b"
  by (cases a; cases b) (auto)
lemma svz_trans: "sameValueZero a b \<Longrightarrow> sameValueZero b c \<Longrightarrow> sameValueZero a c"
  by (cases a; cases b; cases c) (auto dest: nan_not_zero)
lemma svz_sym: "sameValueZero a b \<Longrightarrow> sameValueZero b a"
  by (cases a; cases b) (auto)

lemma merge_notes_append:
  "merge_notes (xs @ ys) st = merge_notes ys (merge_notes xs st)"
proof (induction xs arbitrary: st)
  case Nil
  show ?case by (cases st) simp
next
  case (Cons x xs)
  show ?case by (cases st) (simp add: Cons.IH Let_def)
qed

text \<open>The specification's notes of a source are the ones \<open>selectCollectNotes\<close> selects.\<close>

lemma as_array_case:
  "case_json g g (\<lambda>b. g) (\<lambda>w. g) (\<lambda>s. g) (\<lambda>r xs. f xs) (\<lambda>r fs. g) v
   = (case as_array v of Some xs \<Rightarrow> f xs | None \<Rightarrow> g)"
  by (cases v) simp_all

lemma selectCollectNotes_source_notes: "selectCollectNotes c = source_notes c"
  by (simp add: selectCollectNotes_def source_notes_def as_array_case nullish_coalesce_def
      List.map_filter_simps Let_def split: option.splits)

lemma merge_sources_concat:
  "merge_sources sources st = merge_notes (contributed_notes sources) st"
proof (induction sources arbitrary: st)
  case Nil
  show ?case by (cases st) (simp add: contributed_notes_def)
next
  case (Cons s ss)
  have "contributed_notes (s # ss) = selectCollectNotes s @ contributed_notes ss"
    by (simp add: contributed_notes_def selectCollectNotes_source_notes)
  then show ?case by (simp add: Cons.IH merge_notes_append)
qed

lemma source_notes_truthy: "n \<in> set (source_notes c) \<Longrightarrow> truthy n"
  by (auto simp: source_notes_def Let_def split: if_splits option.splits list.splits)

lemma contributed_notes_truthy: "n \<in> set (contributed_notes sources) \<Longrightarrow> truthy n"
  by (auto simp: contributed_notes_def dest: source_notes_truthy)

text \<open>The id the specification says a note bears is the truthy value the loop computes.\<close>

lemma claimed_id_None: "claimed_id n = None \<longleftrightarrow> \<not> truthy (noteId_of n)"
  by (simp add: claimed_id_def noteId_of_def or_js_def)

lemma claimed_id_Some: "claimed_id n = Some v \<longleftrightarrow> truthy v \<and> noteId_of n = v"
  by (auto simp: claimed_id_def noteId_of_def or_js_def)

lemma claimed_id_differs:
  assumes "truthy v"
  shows "(case claimed_id p of None \<Rightarrow> True | Some u \<Rightarrow> \<not> sameValueZero u v)
         \<longleftrightarrow> \<not> sameValueZero (noteId_of p) v"
proof (cases "claimed_id p")
  case None
  then have "\<not> truthy (noteId_of p)" by (simp add: claimed_id_None)
  then have "\<not> sameValueZero (noteId_of p) v"
    using assms svz_truthy [of "noteId_of p" v] by blast
  then show ?thesis using None by simp
next
  case (Some u)
  then have "noteId_of p = u" by (simp add: claimed_id_Some)
  then show ?thesis using Some by simp
qed

lemma first_bearer_at_end:
  "first_bearer (prev @ x # xs) (length prev) \<longleftrightarrow>
     \<not> truthy (noteId_of x) \<or> \<not> (\<exists>p\<in>set prev. sameValueZero (noteId_of p) (noteId_of x))"
proof (cases "claimed_id x")
  case None
  then have "\<not> truthy (noteId_of x)" by (simp add: claimed_id_None)
  then show ?thesis using None by (simp add: first_bearer_def)
next
  case (Some v)
  then have v: "truthy v" "noteId_of x = v" by (simp_all add: claimed_id_Some)
  have "list_all (\<lambda>j. case claimed_id ((prev @ x # xs) ! j) of
                          None \<Rightarrow> True
                        | Some u \<Rightarrow> \<not> sameValueZero u v) [0..<length prev]
        \<longleftrightarrow> (\<forall>j<length prev. \<not> sameValueZero (noteId_of (prev ! j)) v)"
    using claimed_id_differs [OF v(1)] by (auto simp: list_all_iff nth_append)
  also have "\<dots> \<longleftrightarrow> (\<forall>p\<in>set prev. \<not> sameValueZero (noteId_of p) v)"
    by (simp add: all_set_conv_all_nth)
  finally show ?thesis using Some v by (simp add: first_bearer_def)
qed

lemma seen_covers_step_kept:
  assumes "seen_covers prev seen" 
  shows "seen_covers (prev @ [x]) (if truthy (noteId_of x) then seen @ [noteId_of x] else seen)"
  using assms by (auto simp: seen_covers_def seen_has_def list_ex_iff dest: svz_truthy)

lemma seen_covers_step_dropped:
  assumes "seen_covers prev seen" "truthy (noteId_of x)" "seen_has seen (noteId_of x)"
  shows "seen_covers (prev @ [x]) seen"
proof -
  from assms obtain p where p: "p \<in> set prev" "sameValueZero (noteId_of p) (noteId_of x)"
    by (auto simp: seen_covers_def)
  show ?thesis unfolding seen_covers_def
  proof (intro allI impI)
    fix v assume tv: "truthy v"
    have "sameValueZero (noteId_of x) v \<Longrightarrow> \<exists>q\<in>set prev. sameValueZero (noteId_of q) v"
      using p svz_trans by blast
    then show "seen_has seen v \<longleftrightarrow> (\<exists>q\<in>set (prev @ [x]). sameValueZero (noteId_of q) v)"
      using assms(1) tv by (auto simp: seen_covers_def)
  qed
qed

lemma merge_notes_first_wins:
  assumes "\<forall>x\<in>set xs. truthy x" "seen_covers prev seen"
  shows "fst (merge_notes xs (m, seen)) =
           m @ map (\<lambda>i. (prev @ xs) ! i)
                 (filter (first_bearer (prev @ xs)) [length prev..<length prev + length xs])"
  using assms
proof (induction xs arbitrary: prev m seen)
  case Nil
  show ?case by simp
next
  case (Cons x xs)
  have tx: "truthy x" and txs: "\<forall>y\<in>set xs. truthy y" using Cons.prems(1) by auto
  have upt: "[length prev..<length prev + length (x # xs)]
             = length prev # [length (prev @ [x])..<length (prev @ [x]) + length xs]"
  proof -
    have "length prev < length prev + length (x # xs)" by simp
    then have "[length prev..<length prev + length (x # xs)]
               = length prev # [Suc (length prev)..<length prev + length (x # xs)]"
      by (rule upt_conv_Cons)
    then show ?thesis by simp
  qed
  have app: "prev @ x # xs = (prev @ [x]) @ xs" by simp
  have here: "(prev @ x # xs) ! length prev = x" by simp
  show ?case
  proof (cases "truthy (noteId_of x) \<and> seen_has seen (noteId_of x)")
    case True
    then have nb: "\<not> first_bearer (prev @ x # xs) (length prev)"
      using Cons.prems(2) by (auto simp: first_bearer_at_end seen_covers_def)
    have cov: "seen_covers (prev @ [x]) seen"
      using True Cons.prems(2) by (auto intro: seen_covers_step_dropped)
    have "fst (merge_notes (x # xs) (m, seen)) = fst (merge_notes xs (m, seen))"
      using True tx by (simp add: Let_def)
    also have "\<dots> = m @ map (\<lambda>i. ((prev @ [x]) @ xs) ! i)
                 (filter (first_bearer ((prev @ [x]) @ xs))
                    [length (prev @ [x])..<length (prev @ [x]) + length xs])"
      by (rule Cons.IH [OF txs cov])
    finally show ?thesis
      unfolding upt using nb by (simp del: upt_Suc)
  next
    case False
    then have b: "first_bearer (prev @ x # xs) (length prev)"
      using Cons.prems(2) by (auto simp: first_bearer_at_end seen_covers_def)
    let ?seen = "if truthy (noteId_of x) then seen @ [noteId_of x] else seen"
    have cov: "seen_covers (prev @ [x]) ?seen"
      using Cons.prems(2) by (rule seen_covers_step_kept)
    have "fst (merge_notes (x # xs) (m, seen)) = fst (merge_notes xs (m @ [x], ?seen))"
      using False tx by (auto simp: Let_def)
    also have "\<dots> = (m @ [x]) @ map (\<lambda>i. ((prev @ [x]) @ xs) ! i)
                 (filter (first_bearer ((prev @ [x]) @ xs))
                    [length (prev @ [x])..<length (prev @ [x]) + length xs])"
      by (rule Cons.IH [OF txs cov])
    finally show ?thesis
      unfolding upt using b here by (simp del: upt_Suc)
  qed
qed

lemma merged_is_first_seen_wins:
  "fst (merge_sources sources ([], [])) = first_seen_wins (contributed_notes sources)"
proof -
  have "seen_covers [] []" by (simp add: seen_covers_def seen_has_def)
  then show ?thesis
    using merge_notes_first_wins [of "contributed_notes sources" "[]" "[]" "[]"]
    by (simp add: merge_sources_concat first_seen_wins_def contributed_notes_truthy)
qed

lemma first_seen_wins_Nil_iff: "first_seen_wins xs = [] \<longleftrightarrow> xs = []"
proof
  assume e: "first_seen_wins xs = []"
  show "xs = []"
  proof (rule ccontr)
    assume "xs \<noteq> []"
    then have "0 \<in> set (filter (first_bearer xs) [0..<length xs])"
      by (simp add: first_bearer_def split: option.splits)
    then show False using e by (auto simp: first_seen_wins_def simp del: set_filter)
  qed
qed (simp add: first_seen_wins_def)


lemma mergeCollectSources_eq:
  "mergeCollectSources a sources =
     (if contributed_notes sources = [] then JNull
      else collect_of a (first_seen_wins (contributed_notes sources)))"
  by (simp add: mergeCollectSources_def merged_is_first_seen_wins first_seen_wins_Nil_iff
      collect_of_def)

lemma first_seen_wins_truthy:
  "\<forall>x\<in>set xs. truthy x \<Longrightarrow> filter truthy (first_seen_wins xs) = first_seen_wins xs"
  by (auto simp: first_seen_wins_def filter_id_conv)

lemma source_notes_collect_of [simp]: "source_notes (collect_of a ns) = filter truthy ns"
  by (simp add: source_notes_def collect_of_def List.map_filter_simps js_def)

lemma source_notes_JNull [simp]: "source_notes JNull = []"
  by (simp add: source_notes_def)

lemma source_notes_JArr [simp]: "source_notes (JArr r xs) = filter truthy xs"
  by (simp add: source_notes_def)

lemma source_notes_merged:
  "source_notes (mergeCollectSources a sources) = first_seen_wins (contributed_notes sources)"
proof (cases "contributed_notes sources = []")
  case True
  then show ?thesis by (simp add: mergeCollectSources_eq first_seen_wins_def)
next
  case False
  have "filter truthy (first_seen_wins (contributed_notes sources))
        = first_seen_wins (contributed_notes sources)"
    by (rule first_seen_wins_truthy) (auto intro: contributed_notes_truthy)
  then show ?thesis using False by (simp add: mergeCollectSources_eq)
qed

lemma example_notes [simp]:
  "truthy note_a" "truthy note_b" "truthy note_a_again" "truthy note_plain"
  "truthy note_zero" "truthy note_zero_again"
  by (simp_all add: note_a_def note_b_def note_a_again_def note_plain_def note_zero_def
      note_zero_again_def)

lemma example_ids:
  "claimed_id note_a = Some (JStr (js ''a''))" "claimed_id note_b = Some (JStr (js ''b''))"
  "claimed_id note_a_again = Some (JStr (js ''a''))" "claimed_id note_plain = None"
  "claimed_id note_zero = None" "claimed_id note_zero_again = None"
  by (simp_all add: claimed_id_def note_a_def note_b_def note_a_again_def note_plain_def
      note_zero_def note_zero_again_def js_def isZero64_def)

text \<open>
  C9, as the specification states it, fails on the code: two notes whose \<open>id\<close> is the
  number 0 bear the same id, and the reducer keeps both. The loop tests
  \<open>noteId && seen.has(noteId)\<close>: an id that is falsy is never looked up and never
  recorded.
\<close>

theorem mergeCollectSources_keeps_both_zero_ids:
  "property note_zero (js ''id'') = JNum 0
   \<and> property note_zero_again (js ''id'') = JNum 0
   \<and> sameValueZero (JNum 0) (JNum 0)
   \<and> mergeCollectSources 30 [JArr 20 [note_zero, note_zero_again]]
     = JObj 30 [(js ''data'', JObj 31 [(js ''notes'', JArr 32 [note_zero, note_zero_again])])]"
proof -
  have i: "noteId_of note_zero = JNum 0" "noteId_of note_zero_again = JNum 0"
    by (simp_all add: noteId_of_def or_js_def note_zero_def note_zero_again_def js_def)
  have "selectCollectNotes (JArr 20 [note_zero, note_zero_again]) = [note_zero, note_zero_again]"
    by (simp add: selectCollectNotes_def)
  then have "fst (merge_sources [JArr 20 [note_zero, note_zero_again]] ([], []))
             = [note_zero, note_zero_again]"
    by (simp add: i isZero64_def Let_def)
  then have "mergeCollectSources 30 [JArr 20 [note_zero, note_zero_again]]
     = JObj 30 [(js ''data'', JObj 31 [(js ''notes'', JArr 32 [note_zero, note_zero_again])])]"
    by (simp add: mergeCollectSources_def)
  then show ?thesis
    by (simp add: note_zero_def note_zero_again_def js_def)
qed

text \<open>
  C9, amended. The reducer deduplicates by truthy note id, first seen wins. Whatever
  the sources are, the merged notes are the notes the sources contribute, in source
  order, each kept exactly when none of its properties \<open>note_id\<close>, \<open>noteId\<close>, \<open>id\<close>
  is truthy (it bears no id, or only falsy ones such as 0, the empty string,
  \<open>false\<close> or \<open>null\<close>), or no earlier contributed note bears the same id, the id of a
  note being the first truthy of the three and ids being compared by SameValueZero. The
  result is \<open>null\<close> exactly when no source contributes a note, and otherwise a new
  object \<open>{data: {notes: merged}}\<close>.
\<close>

theorem mergeCollectSources_first_seen_wins:
  "mergeCollectSources a sources =
     (if contributed_notes sources = [] then JNull
      else JObj a [(js ''data'',
                    JObj (Suc a)
                      [(js ''notes'',
                        JArr (Suc (Suc a)) (first_seen_wins (contributed_notes sources)))])])
   \<and> (mergeCollectSources a sources = JNull \<longleftrightarrow> (\<forall>s\<in>set sources. source_notes s = []))
   \<and> selectCollectNotes (mergeCollectSources a sources)
       = first_seen_wins (contributed_notes sources)"
proof (intro conjI)
  show "mergeCollectSources a sources =
     (if contributed_notes sources = [] then JNull
      else JObj a [(js ''data'',
                    JObj (Suc a)
                      [(js ''notes'',
                        JArr (Suc (Suc a)) (first_seen_wins (contributed_notes sources)))])])"
    using mergeCollectSources_eq [of a sources] by (simp add: collect_of_def)
  show "mergeCollectSources a sources = JNull \<longleftrightarrow> (\<forall>s\<in>set sources. source_notes s = [])"
    by (simp add: mergeCollectSources_eq contributed_notes_def collect_of_def)
  show "selectCollectNotes (mergeCollectSources a sources)
       = first_seen_wins (contributed_notes sources)"
    by (simp add: selectCollectNotes_source_notes source_notes_merged)
qed

lemma example_contributed:
  "contributed_notes
     [collect_of 10 [note_a, note_plain, JNull], JNull,
      JArr 20 [note_a_again, note_b, note_plain, note_zero, note_zero_again]]
   = [note_a, note_plain, note_a_again, note_b, note_plain, note_zero, note_zero_again]"
  by (simp add: contributed_notes_def)

lemma example_first_seen_wins:
  "first_seen_wins
     [note_a, note_plain, note_a_again, note_b, note_plain, note_zero, note_zero_again]
   = [note_a, note_plain, note_b, note_plain, note_zero, note_zero_again]"
proof -
  have u: "[0..<7] = [0, 1, 2, 3, 4, 5, 6]" by (simp add: upt_rec)
  have 2: "[0..<2] = [0, 1]" by (simp add: upt_rec)
  have 3: "[0..<3] = [0, 1, 2]" by (simp add: upt_rec)
  show ?thesis
    by (simp add: first_seen_wins_def first_bearer_def u 2 3 example_ids js_def)
qed

theorem mergeCollectSources_first_seen_wins_witness:
  "mergeCollectSources 30
     [collect_of 10 [note_a, note_plain, JNull], JNull,
      JArr 20 [note_a_again, note_b, note_plain, note_zero, note_zero_again]]
   = JObj 30 [(js ''data'', JObj 31 [(js ''notes'',
        JArr 32 [note_a, note_plain, note_b, note_plain, note_zero, note_zero_again])])]
   \<and> mergeCollectSources 30 [JNull, JArr 7 [JNull], JObj 8 [(js ''notes'', JArr 9 [])]] = JNull"
proof -
  let ?srcs = "[collect_of 10 [note_a, note_plain, JNull], JNull,
      JArr 20 [note_a_again, note_b, note_plain, note_zero, note_zero_again]]"
  let ?none = "[JNull, JArr 7 [JNull], JObj 8 [(js ''notes'', JArr 9 [])]]"
  have e: "\<forall>s\<in>set ?none. source_notes s = []"
    by (simp add: source_notes_def List.map_filter_simps js_def)
  have a: "mergeCollectSources 30 ?srcs
   = JObj 30 [(js ''data'', JObj 31 [(js ''notes'',
        JArr 32 [note_a, note_plain, note_b, note_plain, note_zero, note_zero_again])])]"
    using mergeCollectSources_first_seen_wins [of 30 ?srcs]
    by (simp add: example_contributed example_first_seen_wins)
  have b: "mergeCollectSources 30 ?none = JNull"
    using mergeCollectSources_first_seen_wins [of 30 ?none] e by blast
  from a b show ?thesis by (rule conjI)
qed

section \<open>Properties of the login sessions\<close>

lemmas cleanup_defs = cleanupSessionResources_def cleanup_monitor_def cleanup_expireTimer_def
  cleanup_page_def cleanup_removalTimer_def update_session_def arm_timer_def clear_timer_def

subsection \<open>The example world\<close>

lemma example_world_table [simp]:
  "loginSessions example_world = [js ''s1'' \<mapsto> 0]"
  by (simp add: example_world_def example_env_def initial_world_def createLoginSession_def
      arm_timer_def update_session_def Let_def)

lemma example_world_session [simp]:
  "heap example_world 0 =
     \<lparr>session_id = js ''s1'', status = Pending, createdAt = 1000, page = Some 7,
      destory = Some 9, cookie = None, error = None, monitor = Some 0,
      expireTimer = Some 1, removalTimer = None\<rparr>"
  by (simp add: example_world_def example_env_def initial_world_def createLoginSession_def
      arm_timer_def update_session_def Let_def)

lemma example_world_timers [simp]:
  "timers example_world = [0 \<mapsto> (Interval 3000, MonitorTick 0), 1 \<mapsto> (OneShot SESSION_TTL, ExpireTick 0)]"
  "nextTimeout example_world = 2"
  by (simp_all add: example_world_def example_env_def initial_world_def createLoginSession_def
      arm_timer_def update_session_def Let_def)

lemma example_world_rest [simp]:
  "teardowns example_world = []" "pendingReads example_world = []"
  "debugLog example_world = []" "nextRef example_world = 1"
  "cookieModule example_world = \<lparr>runtimeCookie = None, runtimeUpdatedAt = None\<rparr>"
  by (simp_all add: example_world_def example_env_def initial_world_def createLoginSession_def
      arm_timer_def update_session_def Let_def)

subsection \<open>Cleanup\<close>

lemma cleanup_fields:
  "monitor (heap (cleanupSessionResources e r w) r) = None"
  "expireTimer (heap (cleanupSessionResources e r w) r) = None"
  "removalTimer (heap (cleanupSessionResources e r w) r) \<noteq> None"
  "page (heap (cleanupSessionResources e r w) r) = None
   \<or> destory (heap (cleanupSessionResources e r w) r) = None"
  by (auto simp: cleanup_defs Let_def split: option.splits prod.splits)

lemma cleanup_noop:
  assumes "monitor (heap w r) = None" "expireTimer (heap w r) = None"
    "removalTimer (heap w r) \<noteq> None" "page (heap w r) = None \<or> destory (heap w r) = None"
  shows "cleanupSessionResources e r w = w"
  using assms by (auto simp: cleanup_defs Let_def split: option.splits prod.splits)

lemma cleanup_twice:
  "cleanupSessionResources e2 r (cleanupSessionResources e1 r w) = cleanupSessionResources e1 r w"
  by (rule cleanup_noop) (rule cleanup_fields)+

lemma cleanup_bounds:
  "nextTimeout (cleanupSessionResources e r w) \<le> Suc (nextTimeout w)"
  "length (teardowns (cleanupSessionResources e r w)) \<le> Suc (length (teardowns w))"
  by (auto simp: cleanup_defs Let_def split: option.splits prod.splits)

lemma cleanup_page_cleared:
  "(page (heap w r) = None) = (destory (heap w r) = None) \<Longrightarrow>
   page (heap (cleanupSessionResources e r w) r) = None
   \<and> destory (heap (cleanupSessionResources e r w) r) = None"
  by (auto simp: cleanup_defs Let_def split: option.splits prod.splits)

lemma cleanup_disarms:
  "monitor (heap w r) = Some t \<or> expireTimer (heap w r) = Some t \<Longrightarrow> t < nextTimeout w \<Longrightarrow>
   timers (cleanupSessionResources e r w) t = None"
  by (auto simp: cleanup_defs Let_def split: option.splits prod.splits)

text \<open>
  C3. Cleanup is idempotent. After a first call of \<open>cleanupSessionResources\<close> on a
  session has completed, a second call leaves the whole process state as it is: no
  teardown is invoked, no timer is armed or cleared, nothing is logged. After the first
  call the session's monitor and expire handles are cleared and the timers they named
  are no longer armed, a removal timer is recorded, the page and teardown references
  are cleared (for a session that holds both or neither, as every created session
  does), and the first call itself invoked at most one teardown and armed at most one
  timer.
\<close>

theorem cleanup_idempotent:
  "cleanupSessionResources e2 r (cleanupSessionResources e1 r w) = cleanupSessionResources e1 r w
   \<and> monitor (heap (cleanupSessionResources e1 r w) r) = None
   \<and> expireTimer (heap (cleanupSessionResources e1 r w) r) = None
   \<and> removalTimer (heap (cleanupSessionResources e1 r w) r) \<noteq> None
   \<and> ((monitor (heap w r) = Some t \<or> expireTimer (heap w r) = Some t) \<and> t < nextTimeout w \<longrightarrow>
        timers (cleanupSessionResources e1 r w) t = None)
   \<and> ((page (heap w r) = None) = (destory (heap w r) = None) \<longrightarrow>
        page (heap (cleanupSessionResources e1 r w) r) = None
        \<and> destory (heap (cleanupSessionResources e1 r w) r) = None)
   \<and> length (teardowns (cleanupSessionResources e1 r w)) \<le> Suc (length (teardowns w))
   \<and> nextTimeout (cleanupSessionResources e1 r w) \<le> Suc (nextTimeout w)"
  using cleanup_twice [of e2 r e1 w] cleanup_fields [of e1 r w] cleanup_bounds [of e1 r w]
    cleanup_page_cleared [of w r e1] cleanup_disarms [of w r t e1]
  by blast

theorem cleanup_idempotent_witness:
  "cleanupSessionResources (example_env\<lparr>destory_outcome := Some (ErrorObj (js ''closed''))\<rparr>) 0
     (cleanupSessionResources example_env 0 example_world)
   = cleanupSessionResources example_env 0 example_world
   \<and> timers (cleanupSessionResources example_env 0 example_world) 0 = None
   \<and> timers (cleanupSessionResources example_env 0 example_world) 1 = None
   \<and> page (heap (cleanupSessionResources example_env 0 example_world) 0) = None
   \<and> destory (heap (cleanupSessionResources example_env 0 example_world) 0) = None
   \<and> teardowns (cleanupSessionResources example_env 0 example_world) = [9]"
proof -
  have t: "teardowns (cleanupSessionResources example_env 0 example_world) = [9]"
    by (simp add: cleanup_defs Let_def example_env_def)
  show ?thesis
    using cleanup_idempotent
            [of "example_env\<lparr>destory_outcome := Some (ErrorObj (js ''closed''))\<rparr>" 0
                example_env example_world 0]
      cleanup_idempotent
            [of "example_env\<lparr>destory_outcome := Some (ErrorObj (js ''closed''))\<rparr>" 0
                example_env example_world 1]
      t
    by simp
qed

subsection \<open>Session creation\<close>










subsection \<open>Status polling\<close>

lemma cleanup_keeps_projection:
  "loginSessions (cleanupSessionResources e r w) = loginSessions w"
  "session_id (heap (cleanupSessionResources e r w) q) = session_id (heap w q)"
  "status (heap (cleanupSessionResources e r w) q) = status (heap w q)"
  "cookie (heap (cleanupSessionResources e r w) q) = cookie (heap w q)"
  "error (heap (cleanupSessionResources e r w) q) = error (heap w q)"
  "createdAt (heap (cleanupSessionResources e r w) q) = createdAt (heap w q)"
  by (auto simp: cleanup_defs Let_def split: option.splits prod.splits)

lemma serveStatus_after_cleanup:
  "serveStatus (cleanupSessionResources e r w) sessionId = serveStatus w sessionId"
  by (simp add: serveStatus_def cleanup_keeps_projection Let_def split: option.splits)

text \<open>
  C6. Status polling. For an id absent from the table the answer is 404 with
  \<open>{status: "missing"}\<close>. For an id in the table it is 200 with the session's id and
  status, the cookie exactly when the status is \<open>success\<close> (and the session has one),
  the error if the session has one, and \<open>expiresAt\<close> = creation time + 300000 ms. The
  handler's \<open>status\<close> action returns this answer and leaves the whole process state
  unchanged. A cleanup of any session does not change the answer, so the poll answers
  the same after cleanup and before removal.
\<close>

theorem serveStatus_projection:
  "(loginSessions w sessionId = None \<longrightarrow> serveStatus w sessionId = Response 404 StatusMissing)
   \<and> (loginSessions w sessionId = Some r \<longrightarrow>
        serveStatus w sessionId =
          Response 200
            (StatusBody
               \<lparr>body_id = session_id (heap w r),
                body_status = status (heap w r),
                body_cookie = (if status (heap w r) = Success then cookie (heap w r) else None),
                body_error = error (heap w r),
                body_expiresAt = createdAt (heap w r) + 300000\<rparr>))
   \<and> (sessionId \<noteq> [] \<longrightarrow>
        handler e w (Some sessionId) (Some (js ''status'')) = (w, Inr (serveStatus w sessionId)))
   \<and> serveStatus (cleanupSessionResources e q w) sessionId = serveStatus w sessionId"
proof -
  have "js ''status'' \<noteq> js ''qrcode''" by (simp add: js_def)
  then have "sessionId \<noteq> [] \<longrightarrow>
        handler e w (Some sessionId) (Some (js ''status'')) = (w, Inr (serveStatus w sessionId))"
    by (simp add: handler_def)
  then show ?thesis
    by (simp add: serveStatus_def Let_def SESSION_TTL_def serveStatus_after_cleanup
        cleanup_keeps_projection split: option.splits)
qed

theorem serveStatus_projection_witness:
  "serveStatus example_world (js ''nobody'') = Response 404 StatusMissing
   \<and> serveStatus example_world (js ''s1'') =
       Response 200
         (StatusBody \<lparr>body_id = js ''s1'', body_status = Pending, body_cookie = None,
                      body_error = None, body_expiresAt = 301000\<rparr>)
   \<and> handler example_env example_world (Some (js ''s1'')) (Some (js ''status''))
     = (example_world, Inr (serveStatus example_world (js ''s1'')))"
proof -
  have n: "js ''nobody'' \<noteq> js ''s1''" "js ''s1'' \<noteq> []" by (simp_all add: js_def)
  show ?thesis
    using serveStatus_projection [of example_world "js ''nobody''" 0 example_env 0]
      serveStatus_projection [of example_world "js ''s1''" 0 example_env 0] n
    by simp
qed

subsection \<open>QR code serving\<close>

lemma inactive_iff_not_active: "inactive_session w sessionId \<longleftrightarrow> (\<forall>p. \<not> active_session w sessionId p)"
  by (auto simp: inactive_session_def active_session_def split: option.splits)

lemma serveQRCode_inactive:
  "inactive_session w sessionId \<Longrightarrow>
   serveQRCode e w sessionId = (w, Response 404 (ErrorBody (js ''session_inactive'') None))"
  by (auto simp: inactive_session_def serveQRCode_def session_inactive_def split: option.splits)

lemma serveQRCode_active:
  "active_session w sessionId p \<Longrightarrow>
   snd (serveQRCode e w sessionId) =
     (case snd (captureQRCode (capture e p)) of
        Inr buffer \<Rightarrow> Response 200 (ImageBody buffer)
      | Inl err \<Rightarrow> Response 500 (ErrorBody (js ''qrcode_unavailable'') (Some (message_of err))))"
  by (auto simp: active_session_def serveQRCode_def Let_def split: option.splits prod.splits sum.splits)

lemma serveQRCode_keeps_sessions:
  "loginSessions (fst (serveQRCode e w sessionId)) = loginSessions w"
  "heap (fst (serveQRCode e w sessionId)) = heap w"
  "timers (fst (serveQRCode e w sessionId)) = timers w"
  by (auto simp: serveQRCode_def Let_def split: option.splits prod.splits sum.splits)

text \<open>
  C7. QR code serving keeps its two failures apart. If the session is missing, or not
  \<open>pending\<close>, or has no live page, the answer is 404 \<open>session_inactive\<close> and the state
  is unchanged. If the session is active and the capture throws, the answer is 500
  \<open>qrcode_unavailable\<close> with the message of the thrown value; if the capture returns
  bytes, it is 200 with those bytes. The 404 answer is given exactly for an inactive
  session and a 500 answer exactly for an active session whose capture throws. No
  session, table entry or timer is changed by the request.
\<close>

theorem serveQRCode_failures_distinct:
  "(inactive_session w sessionId \<longrightarrow>
      serveQRCode e w sessionId = (w, Response 404 (ErrorBody (js ''session_inactive'') None)))
   \<and> (active_session w sessionId p \<and> snd (captureQRCode (capture e p)) = Inl err \<longrightarrow>
        snd (serveQRCode e w sessionId) =
          Response 500 (ErrorBody (js ''qrcode_unavailable'') (Some (message_of err))))
   \<and> (active_session w sessionId p \<and> snd (captureQRCode (capture e p)) = Inr buffer \<longrightarrow>
        snd (serveQRCode e w sessionId) = Response 200 (ImageBody buffer))
   \<and> (snd (serveQRCode e w sessionId) = Response 404 (ErrorBody (js ''session_inactive'') None)
        \<longleftrightarrow> inactive_session w sessionId)
   \<and> ((\<exists>m. snd (serveQRCode e w sessionId) = Response 500 m)
        \<longleftrightarrow> (\<exists>q err'. active_session w sessionId q \<and> snd (captureQRCode (capture e q)) = Inl err'))
   \<and> loginSessions (fst (serveQRCode e w sessionId)) = loginSessions w
   \<and> heap (fst (serveQRCode e w sessionId)) = heap w
   \<and> timers (fst (serveQRCode e w sessionId)) = timers w"
proof -
  have 1: "inactive_session w sessionId \<longrightarrow>
      serveQRCode e w sessionId = (w, Response 404 (ErrorBody (js ''session_inactive'') None))"
    by (simp add: serveQRCode_inactive)
  have 2: "active_session w sessionId p \<and> snd (captureQRCode (capture e p)) = Inl err \<longrightarrow>
        snd (serveQRCode e w sessionId) =
          Response 500 (ErrorBody (js ''qrcode_unavailable'') (Some (message_of err)))"
    using serveQRCode_active [of w sessionId p e] by auto
  have 3: "active_session w sessionId p \<and> snd (captureQRCode (capture e p)) = Inr buffer \<longrightarrow>
        snd (serveQRCode e w sessionId) = Response 200 (ImageBody buffer)"
    using serveQRCode_active [of w sessionId p e] by auto
  have 4: "snd (serveQRCode e w sessionId) = Response 404 (ErrorBody (js ''session_inactive'') None)
        \<longleftrightarrow> inactive_session w sessionId"
  proof (cases "inactive_session w sessionId")
    case True
    then show ?thesis by (simp add: serveQRCode_inactive)
  next
    case False
    then obtain q where "active_session w sessionId q"
      by (auto simp: inactive_iff_not_active)
    then show ?thesis using False serveQRCode_active [of w sessionId q e]
      by (simp split: sum.splits)
  qed
  have 5: "(\<exists>m. snd (serveQRCode e w sessionId) = Response 500 m)
        \<longleftrightarrow> (\<exists>q err'. active_session w sessionId q \<and> snd (captureQRCode (capture e q)) = Inl err')"
  proof (cases "inactive_session w sessionId")
    case True
    then show ?thesis by (auto simp: serveQRCode_inactive inactive_iff_not_active)
  next
    case False
    then obtain q where q: "active_session w sessionId q"
      by (auto simp: inactive_iff_not_active)
    have u: "\<And>q'. active_session w sessionId q' \<Longrightarrow> q' = q"
      using q by (auto simp: active_session_def split: option.splits)
    show ?thesis
    proof (cases "snd (captureQRCode (capture e q))")
      case (Inl a)
      then show ?thesis using q serveQRCode_active [of w sessionId q e] by auto
    next
      case (Inr b)
      have l: "snd (serveQRCode e w sessionId) = Response 200 (ImageBody b)"
        using Inr serveQRCode_active [of w sessionId q e] q by simp
      have "\<not> (\<exists>q' err'. active_session w sessionId q'
                 \<and> snd (captureQRCode (capture e q')) = Inl err')"
      proof
        assume "\<exists>q' err'. active_session w sessionId q'
                 \<and> snd (captureQRCode (capture e q')) = Inl err'"
        then obtain q' err' where a: "active_session w sessionId q'"
          and c: "snd (captureQRCode (capture e q')) = Inl err'" by blast
        from a have "q' = q" by (rule u)
        with c Inr show False by simp
      qed
      then show ?thesis using l by simp
    qed
  qed
  from 1 2 3 4 5 show ?thesis by (simp add: serveQRCode_keeps_sessions)
qed

lemma example_world_active: "active_session example_world (js ''s1'') 7"
  by (simp add: active_session_def)

lemma example_world_inactive: "inactive_session example_world (js ''nobody'')"
  by (simp add: inactive_session_def js_def)

lemma example_capture: "captureQRCode example_page =
  ([js ''Failed to screenshot .login-container img: Node is detached''], Inr [137, 80, 78, 71])"
  by (simp add: captureQRCode_def selectors_def example_page_def js_def)

theorem serveQRCode_failures_distinct_witness:
  "serveQRCode example_env example_world (js ''nobody'')
     = (example_world, Response 404 (ErrorBody (js ''session_inactive'') None))
   \<and> snd (serveQRCode
            (example_env\<lparr>capture := (\<lambda>p. example_page\<lparr>page_screenshot := Inl (ErrorObj (js ''Target closed'')),
                                                      query := (\<lambda>s. Inr None)\<rparr>)\<rparr>)
            example_world (js ''s1''))
     = Response 500 (ErrorBody (js ''qrcode_unavailable'') (Some (js ''Target closed'')))
   \<and> snd (serveQRCode example_env example_world (js ''s1''))
     = Response 200 (ImageBody [137, 80, 78, 71])"
proof -
  let ?broken = "example_env\<lparr>capture := (\<lambda>p. example_page\<lparr>page_screenshot := Inl (ErrorObj (js ''Target closed'')),
                                                      query := (\<lambda>s. Inr None)\<rparr>)\<rparr>"
  have c: "snd (captureQRCode (capture ?broken 7)) = Inl (ErrorObj (js ''Target closed''))"
    by (simp add: captureQRCode_def selectors_def example_env_def)
  have d: "snd (captureQRCode (capture example_env 7)) = Inr [137, 80, 78, 71]"
    by (simp add: example_env_def example_capture)
  show ?thesis
    using serveQRCode_failures_distinct
            [of example_world "js ''nobody''" example_env 7 "ErrorObj []" "[]"]
      serveQRCode_failures_distinct
            [of example_world "js ''s1''" ?broken 7 "ErrorObj (js ''Target closed'')" "[]"]
      serveQRCode_failures_distinct
            [of example_world "js ''s1''" example_env 7 "ErrorObj []" "[137, 80, 78, 71]"]
      example_world_active example_world_inactive c d
    by simp
qed

subsection \<open>QR capture\<close>

lemma capture_loop_fallback:
  assumes "k < length sels"
    and "\<forall>j<k. query b (sels ! j) = Inr None
               \<or> (\<exists>el err. query b (sels ! j) = Inr (Some el) \<and> element_screenshot b el = Inl err)"
    and "query b (sels ! k) = Inr (Some el)" "element_screenshot b el = Inr buffer"
  shows "snd (capture_loop b sels) = Inr buffer"
  using assms
proof (induction sels arbitrary: k)
  case Nil
  then show ?case by simp
next
  case (Cons s sels)
  show ?case
  proof (cases k)
    case 0
    then show ?thesis using Cons.prems by simp
  next
    case (Suc k')
    have a: "snd (capture_loop b sels) = Inr buffer"
    proof (rule Cons.IH [of k'])
      show "k' < length sels" using Cons.prems(1) Suc by simp
      show "\<forall>j<k'. query b (sels ! j) = Inr None
               \<or> (\<exists>el err. query b (sels ! j) = Inr (Some el) \<and> element_screenshot b el = Inl err)"
        using Cons.prems(2) Suc by auto
      show "query b (sels ! k') = Inr (Some el)" using Cons.prems(3) Suc by simp
      show "element_screenshot b el = Inr buffer" by (rule Cons.prems(4))
    qed
    have "query b s = Inr None
               \<or> (\<exists>el err. query b s = Inr (Some el) \<and> element_screenshot b el = Inl err)"
      using Cons.prems(2) Suc by auto
    then show ?thesis using a by (auto simp: Let_def split: prod.splits)
  qed
qed

lemma capture_loop_no_match:
  "\<forall>s\<in>set sels. query b s = Inr None \<Longrightarrow> capture_loop b sels = ([], page_screenshot b)"
  by (induction sels) auto

text \<open>
  C8. QR capture falls back along the ordered selectors. If selector number \<open>k\<close> finds
  an element whose screenshot succeeds, and every earlier selector found nothing or
  found an element whose screenshot threw, the capture returns the bytes of that
  element, and a request for an active session on that page is answered 200 with these
  bytes. If no selector finds an element, the capture is the full-page screenshot, and
  the request is answered 200 with its bytes when it succeeds.
\<close>

theorem captureQRCode_fallback:
  "(k < length selectors
    \<and> (\<forall>j<k. query b (selectors ! j) = Inr None
             \<or> (\<exists>el' err. query b (selectors ! j) = Inr (Some el')
                          \<and> element_screenshot b el' = Inl err))
    \<and> query b (selectors ! k) = Inr (Some el) \<and> element_screenshot b el = Inr buffer
    \<longrightarrow> snd (captureQRCode b) = Inr buffer
        \<and> (active_session w sessionId p \<and> capture e p = b \<longrightarrow>
             snd (serveQRCode e w sessionId) = Response 200 (ImageBody buffer)))
   \<and> ((\<forall>s\<in>set selectors. query b s = Inr None)
        \<longrightarrow> snd (captureQRCode b) = page_screenshot b
            \<and> (active_session w sessionId p \<and> capture e p = b \<and> page_screenshot b = Inr buffer \<longrightarrow>
                 snd (serveQRCode e w sessionId) = Response 200 (ImageBody buffer)))"
proof (intro conjI impI)
  assume h: "k < length selectors
    \<and> (\<forall>j<k. query b (selectors ! j) = Inr None
             \<or> (\<exists>el' err. query b (selectors ! j) = Inr (Some el')
                          \<and> element_screenshot b el' = Inl err))
    \<and> query b (selectors ! k) = Inr (Some el) \<and> element_screenshot b el = Inr buffer"
  then show c: "snd (captureQRCode b) = Inr buffer"
    unfolding captureQRCode_def by (intro capture_loop_fallback [of k selectors b el buffer]) auto
  assume "active_session w sessionId p \<and> capture e p = b"
  then show "snd (serveQRCode e w sessionId) = Response 200 (ImageBody buffer)"
    using c serveQRCode_active [of w sessionId p e] by simp
next
  assume h: "\<forall>s\<in>set selectors. query b s = Inr None"
  then show c: "snd (captureQRCode b) = page_screenshot b"
    by (simp add: captureQRCode_def capture_loop_no_match)
  assume "active_session w sessionId p \<and> capture e p = b \<and> page_screenshot b = Inr buffer"
  then show "snd (serveQRCode e w sessionId) = Response 200 (ImageBody buffer)"
    using c serveQRCode_active [of w sessionId p e] by simp
qed

theorem captureQRCode_fallback_witness:
  "snd (captureQRCode example_page) = Inr [137, 80, 78, 71]
   \<and> snd (serveQRCode example_env example_world (js ''s1'')) = Response 200 (ImageBody [137, 80, 78, 71])
   \<and> snd (captureQRCode (example_page\<lparr>query := (\<lambda>s. Inr None)\<rparr>)) = Inr [137, 80]
   \<and> snd (serveQRCode (example_env\<lparr>capture := (\<lambda>p. example_page\<lparr>query := (\<lambda>s. Inr None)\<rparr>)\<rparr>)
            example_world (js ''s1''))
     = Response 200 (ImageBody [137, 80])"
proof -
  let ?none = "example_page\<lparr>query := (\<lambda>s. Inr None)\<rparr>"
  let ?env = "example_env\<lparr>capture := (\<lambda>p. ?none)\<rparr>"
  have s: "selectors ! 0 = js ''.login-container img''" "selectors ! 1 = js ''.login-qrcode img''"
    "(1::nat) < length selectors"
    by (simp_all add: selectors_def)
  have q0: "query example_page (selectors ! 0) = Inr (Some 1)"
    and q1: "query example_page (selectors ! 1) = Inr (Some 2)"
    and s1: "element_screenshot example_page 1 = Inl (ErrorObj (js ''Node is detached''))"
    and s2: "element_screenshot example_page 2 = Inr [137, 80, 78, 71]"
    unfolding s by (simp_all add: example_page_def js_def)
  have pre: "\<forall>j<1. query example_page (selectors ! j) = Inr None
             \<or> (\<exists>el' err. query example_page (selectors ! j) = Inr (Some el')
                          \<and> element_screenshot example_page el' = Inl err)"
    using q0 s1 by simp
  have a: "snd (captureQRCode example_page) = Inr [137, 80, 78, 71]
        \<and> snd (serveQRCode example_env example_world (js ''s1'')) = Response 200 (ImageBody [137, 80, 78, 71])"
    using captureQRCode_fallback
            [of 1 example_page 2 "[137, 80, 78, 71]" example_world "js ''s1''" 7 example_env]
      s(3) pre q1 s2 example_world_active
    by (simp add: example_env_def)
  have b: "snd (captureQRCode ?none) = Inr [137, 80]
        \<and> snd (serveQRCode ?env example_world (js ''s1'')) = Response 200 (ImageBody [137, 80])"
    using captureQRCode_fallback
            [of 0 ?none 0 "[137, 80]" example_world "js ''s1''" 7 ?env]
      example_world_active
    by (simp add: example_env_def example_page_def)
  from a b show ?thesis by simp
qed

section \<open>Properties of the collect pipeline\<close>

subsection \<open>Merging merged results\<close>

lemma merge_notes_acc:
  "merge_notes xs (m, s) = (m @ fst (merge_notes xs ([], s)), snd (merge_notes xs ([], s)))"
proof (induction xs arbitrary: m s)
  case Nil
  show ?case by simp
next
  case (Cons x xs)
  show ?case
    using Cons.IH [of m s] Cons.IH [of "m @ [x]"] Cons.IH [of "[x]"]
    by (simp add: Let_def)
qed

lemma seen_le_Nil: "seen_le [] s"
  by (simp add: seen_le_def seen_has_def)

lemma seen_has_append: "seen_has (s @ [u]) v \<longleftrightarrow> seen_has s v \<or> sameValueZero u v"
  by (auto simp: seen_has_def)

lemma seen_le_add_both: "seen_le s0 s \<Longrightarrow> seen_le (s0 @ [u]) (s @ [u])"
  by (auto simp: seen_le_def seen_has_append)

lemma seen_le_add_left: "seen_le s0 s \<Longrightarrow> seen_has s u \<Longrightarrow> seen_le (s0 @ [u]) s"
  by (auto simp: seen_le_def seen_has_append seen_has_def list_ex_iff dest: svz_trans)

text \<open>
  Running the loop on what an earlier run kept, from a set that has seen at least what
  the earlier run had seen, is running it on the notes themselves.
\<close>

lemma merge_notes_kept_again:
  "seen_le s0 s \<Longrightarrow>
   merge_notes (fst (merge_notes ys ([], s0))) (m, s) = merge_notes ys (m, s)"
proof (induction ys arbitrary: s0 s m)
  case Nil
  show ?case by simp
next
  case (Cons y ys)
  let ?i = "noteId_of y"
  show ?case
  proof (cases "truthy y")
    case False
    then show ?thesis using Cons.IH [OF Cons.prems] by simp
  next
    case ty: True
    show ?thesis
    proof (cases "truthy ?i \<and> seen_has s0 ?i")
      case True
      then have "seen_has s ?i" using Cons.prems by (auto simp: seen_le_def)
      then show ?thesis using True ty Cons.IH [OF Cons.prems] by (simp add: Let_def)
    next
      case False
      let ?s0' = "if truthy ?i then s0 @ [?i] else s0"
      have k: "fst (merge_notes (y # ys) ([], s0)) = y # fst (merge_notes ys ([], ?s0'))"
        using False ty merge_notes_acc [of ys "[y]" ?s0'] by (auto simp: Let_def)
      show ?thesis
      proof (cases "truthy ?i \<and> seen_has s ?i")
        case True
        then have le: "seen_le ?s0' s" using Cons.prems by (auto intro: seen_le_add_left)
        show ?thesis unfolding k using True ty Cons.IH [OF le] by (simp add: Let_def)
      next
        case F2: False
        let ?s' = "if truthy ?i then s @ [?i] else s"
        have le: "seen_le ?s0' ?s'" using Cons.prems by (auto intro: seen_le_add_both)
        show ?thesis unfolding k using F2 ty Cons.IH [OF le, of "m @ [y]"] by (auto simp: Let_def)
      qed
    qed
  qed
qed

lemma first_seen_wins_loop:
  "\<forall>x\<in>set xs. truthy x \<Longrightarrow> first_seen_wins xs = fst (merge_notes xs ([], []))"
proof -
  assume t: "\<forall>x\<in>set xs. truthy x"
  have "seen_covers [] []" by (simp add: seen_covers_def seen_has_def)
  then show ?thesis
    using merge_notes_first_wins [of xs "[]" "[]" "[]"] t by (simp add: first_seen_wins_def)
qed

lemma first_seen_wins_subset: "set (first_seen_wins xs) \<subseteq> set xs"
  by (auto simp: first_seen_wins_def)

lemma first_seen_wins_absorb:
  assumes "\<forall>x\<in>set xs. truthy x" "\<forall>y\<in>set ys. truthy y" "\<forall>z\<in>set zs. truthy z"
  shows "first_seen_wins (xs @ first_seen_wins ys @ zs) = first_seen_wins (xs @ ys @ zs)"
proof -
  have ty: "\<forall>y\<in>set (first_seen_wins ys). truthy y"
    using assms(2) first_seen_wins_subset [of ys] by blast
  obtain m s where ms: "merge_notes xs ([], []) = (m, s)" by (cases "merge_notes xs ([], [])")
  have "merge_notes (first_seen_wins ys) (m, s) = merge_notes ys (m, s)"
    unfolding first_seen_wins_loop [OF assms(2)]
    by (rule merge_notes_kept_again) (rule seen_le_Nil)
  then have "merge_notes (xs @ first_seen_wins ys @ zs) ([], [])
             = merge_notes (xs @ ys @ zs) ([], [])"
    by (simp add: merge_notes_append ms)
  moreover have "first_seen_wins (xs @ first_seen_wins ys @ zs)
                 = fst (merge_notes (xs @ first_seen_wins ys @ zs) ([], []))"
    by (rule first_seen_wins_loop) (use assms ty in auto)
  moreover have "first_seen_wins (xs @ ys @ zs) = fst (merge_notes (xs @ ys @ zs) ([], []))"
    by (rule first_seen_wins_loop) (use assms in auto)
  ultimately show ?thesis by simp
qed

subsection \<open>What the accumulated result holds\<close>

lemma contributed_Nil_iff: "contributed_notes sources = [] \<longleftrightarrow> \<not> list_ex yields sources"
  by (auto simp: contributed_notes_def yields_def list_ex_iff)

lemma yields_truthy: "yields x \<Longrightarrow> truthy x"
  by (cases "truthy x") (simp_all add: yields_def source_notes_def)

lemma truthy_accumulated:
  "truthy (accumulated a h sources) \<longleftrightarrow> truthy h \<or> list_ex yields sources"
  by (simp add: accumulated_def contributed_Nil_iff collect_of_def)

lemma merge_into_eq:
  "merge_into a acc x =
     (if source_notes acc @ source_notes x = [] then acc
      else collect_of a (first_seen_wins (source_notes acc @ source_notes x)))"
  by (simp add: merge_into_def mergeCollectSources_eq contributed_notes_def nullish_coalesce_def
      collect_of_def)

lemma merge_into_first: "merge_into a h s = accumulated a h [h, s]"
  by (simp add: merge_into_eq accumulated_def contributed_notes_def)

lemma source_notes_accumulated:
  "source_notes (accumulated a h (h # rest)) = first_seen_wins (contributed_notes (h # rest))"
proof (cases "contributed_notes (h # rest) = []")
  case True
  then have "source_notes h = []" by (simp add: contributed_notes_def)
  then show ?thesis using True by (simp add: accumulated_def first_seen_wins_def)
next
  case False
  have "\<forall>x\<in>set (contributed_notes (h # rest)). truthy x"
    by (auto dest: contributed_notes_truthy)
  then show ?thesis using False by (simp add: accumulated_def first_seen_wins_truthy)
qed

lemma first_seen_wins_twice:
  assumes "\<forall>x\<in>set xs. truthy x" "\<forall>y\<in>set ys. truthy y"
  shows "first_seen_wins (first_seen_wins xs @ ys) = first_seen_wins (xs @ ys)"
proof -
  have "\<forall>x\<in>set ([]::json list). truthy x" by simp
  from first_seen_wins_absorb [OF this assms] show ?thesis by simp
qed

lemma first_seen_wins_both:
  assumes "\<forall>x\<in>set xs. truthy x" "\<forall>y\<in>set ys. truthy y"
  shows "first_seen_wins (first_seen_wins xs @ first_seen_wins ys) = first_seen_wins (xs @ ys)"
proof -
  have n: "\<forall>x\<in>set ([]::json list). truthy x" by simp
  have ty: "\<forall>y\<in>set (first_seen_wins ys). truthy y"
    using assms(2) first_seen_wins_subset [of ys] by blast
  have "first_seen_wins (first_seen_wins xs @ first_seen_wins ys)
        = first_seen_wins (xs @ first_seen_wins ys)"
    by (rule first_seen_wins_twice [OF assms(1) ty])
  also have "\<dots> = first_seen_wins (xs @ ys)"
    using first_seen_wins_absorb [OF assms(1) assms(2) n] by simp
  finally show ?thesis .
qed

text \<open>Merging one more source into the accumulated result.\<close>

lemma merge_into_accumulated_notes:
  assumes "source_notes x = [] \<longleftrightarrow> ys = []"
    "first_seen_wins (first_seen_wins (contributed_notes (h # rest)) @ source_notes x)
     = first_seen_wins (contributed_notes (h # rest) @ ys)"
  shows "merge_into a' (accumulated a h (h # rest)) x
         = (if contributed_notes (h # rest) @ ys = [] then h
            else collect_of a' (first_seen_wins (contributed_notes (h # rest) @ ys)))"
proof -
  let ?C = "contributed_notes (h # rest)"
  have e: "first_seen_wins ?C @ source_notes x = [] \<longleftrightarrow> ?C @ ys = []"
    using assms(1) by (simp add: first_seen_wins_Nil_iff)
  have m: "merge_into a' (accumulated a h (h # rest)) x
           = (if ?C @ ys = [] then accumulated a h (h # rest)
              else collect_of a' (first_seen_wins (?C @ ys)))"
    unfolding merge_into_eq source_notes_accumulated e assms(2) by (rule refl)
  show ?thesis
  proof (cases "?C @ ys = []")
    case True
    then have acc: "accumulated a h (h # rest) = h" by (simp add: accumulated_def)
    show ?thesis unfolding m by (simp only: True acc if_True simp_thms)
  next
    case False
    show ?thesis unfolding m by (simp only: False if_False)
  qed
qed

lemma merge_into_accumulated:
  "merge_into a' (accumulated a h (h # rest)) x = accumulated a' h (h # rest @ [x])"
proof -
  have tC: "\<forall>n\<in>set (contributed_notes (h # rest)). truthy n"
    by (auto dest: contributed_notes_truthy)
  have t: "\<forall>n\<in>set (source_notes x). truthy n"
    by (auto dest: source_notes_truthy)
  have c: "contributed_notes (h # rest @ [x]) = contributed_notes (h # rest) @ source_notes x"
    by (simp add: contributed_notes_def)
  show ?thesis
    unfolding accumulated_def [of a' h "h # rest @ [x]"] c
    by (rule merge_into_accumulated_notes [OF refl first_seen_wins_twice [OF tC t]])
qed

text \<open>Merging the merge of the API payloads into the accumulated result.\<close>

lemma merge_into_accumulated_api:
  "merge_into a' (accumulated a h (h # rest)) (mergeCollectSources b ps)
   = accumulated a' h (h # rest @ ps)"
proof -
  have tC: "\<forall>n\<in>set (contributed_notes (h # rest)). truthy n"
    and t: "\<forall>n\<in>set (contributed_notes ps). truthy n"
    by (auto dest: contributed_notes_truthy)
  have k: "source_notes (mergeCollectSources b ps) = [] \<longleftrightarrow> contributed_notes ps = []"
    by (simp add: source_notes_merged first_seen_wins_Nil_iff)
  have f: "first_seen_wins (first_seen_wins (contributed_notes (h # rest))
                            @ source_notes (mergeCollectSources b ps))
           = first_seen_wins (contributed_notes (h # rest) @ contributed_notes ps)"
    unfolding source_notes_merged by (rule first_seen_wins_both [OF tC t])
  have c: "contributed_notes (h # rest @ ps) = contributed_notes (h # rest) @ contributed_notes ps"
    by (simp add: contributed_notes_def)
  show ?thesis
    unfolding accumulated_def [of a' h "h # rest @ ps"] c
    by (rule merge_into_accumulated_notes [OF k f])
qed

lemma merge_chain:
  "merge_into (alloc e) (collectFromHttp e) s = with_ssr e s"
  "merge_into (alloc e + 6) (with_ssr e s) (mergeCollectSources (alloc e + 3) (collectPayloads e))
   = with_api e s"
  "merge_into (alloc e + 9) (with_api e s) d = with_dom e s d"
proof -
  show "merge_into (alloc e) (collectFromHttp e) s = with_ssr e s"
    by (simp add: merge_into_first with_ssr_def)
  show "merge_into (alloc e + 6) (with_ssr e s)
          (mergeCollectSources (alloc e + 3) (collectPayloads e)) = with_api e s"
    using merge_into_accumulated_api
            [of "alloc e + 6" "alloc e" "collectFromHttp e" "[s]" "alloc e + 3" "collectPayloads e"]
    by (simp add: with_ssr_def with_api_def)
  show "merge_into (alloc e + 9) (with_api e s) d = with_dom e s d"
    using merge_into_accumulated
            [of "alloc e + 9" "alloc e + 6" "collectFromHttp e" "s # collectPayloads e" d]
    by (simp add: with_api_def with_dom_def)
qed

lemma truthy_chain:
  "truthy (with_ssr e s) \<longleftrightarrow> truthy (collectFromHttp e) \<or> yields s"
  "truthy (with_api e s) \<longleftrightarrow>
     truthy (collectFromHttp e) \<or> yields s \<or> list_ex yields (collectPayloads e)"
  "truthy (with_dom e s d) \<longleftrightarrow>
     truthy (collectFromHttp e) \<or> yields s \<or> list_ex yields (collectPayloads e) \<or> yields d"
  using yields_truthy [of "collectFromHttp e"]
  by (auto simp: with_ssr_def with_api_def with_dom_def truthy_accumulated)

lemma complete_result_flag:
  "truthy h \<and> hasMoreCollectFlag h = JBool False \<longleftrightarrow> complete_result h"
proof -
  have b: "(case v of JBool b \<Rightarrow> JBool b
             | _ \<Rightarrow> (case w of JBool b \<Rightarrow> JBool b | _ \<Rightarrow> JNull)) = JBool False
           \<longleftrightarrow> (if is_boolean v then v = JBool False else w = JBool False)" for v w
    by (cases v; cases w) simp_all
  show ?thesis
    by (simp add: hasMoreCollectFlag_def complete_result_def nullish_coalesce_def Let_def b)
qed

subsection \<open>The try block\<close>

lemma collect_try_returns:
  "snd (collect_try e) = Inr v \<Longrightarrow> v = fst (collect_try e) \<and> truthy v"
  by (auto simp: collect_try_def Let_def split: option.splits sum.splits bool.splits if_splits)

lemma getUserCollect_early:
  "complete_result (collectFromHttp e) \<longrightarrow> getUserCollect e = Inr (collectFromHttp e)"
  using complete_result_flag [of "collectFromHttp e"] by (simp add: getUserCollect_def)

lemma getUserCollect_no_page:
  "\<not> complete_result (collectFromHttp e) \<and> openPage e = Some x \<longrightarrow> getUserCollect e = Inl x"
  using complete_result_flag [of "collectFromHttp e"] by (simp add: getUserCollect_def)

lemma getUserCollect_teardown_throws:
  "\<not> complete_result (collectFromHttp e) \<and> openPage e = None \<and> teardown e = Some x \<longrightarrow>
   getUserCollect e = Inl x"
  using complete_result_flag [of "collectFromHttp e"]
  by (simp add: getUserCollect_def split: prod.splits)

lemma getUserCollect_open:
  assumes "browser_run e"
  shows "getUserCollect e =
           (if truthy (fst (collect_try e)) then Inr (fst (collect_try e))
            else snd (collect_try e))"
proof (cases "collect_try e")
  case (Pair acc outcome)
  have c: "\<not> (truthy (collectFromHttp e) \<and> hasMoreCollectFlag (collectFromHttp e) = JBool False)"
    and o: "openPage e = None" and t: "teardown e = None"
    using assms complete_result_flag [of "collectFromHttp e"] by (auto simp: browser_run_def)
  show ?thesis
  proof (cases outcome)
    case (Inl err)
    then show ?thesis using c o t Pair by (auto simp: getUserCollect_def)
  next
    case (Inr v)
    have "snd (collect_try e) = Inr v" using Pair Inr by simp
    from collect_try_returns [OF this] have va: "v = acc" and ta: "truthy acc"
      using Pair by auto
    show ?thesis using o t Pair Inr va ta c by (auto simp: getUserCollect_def)
  qed
qed

lemma getUserCollect_goto_throws:
  "browser_run e \<and> goto e = Some x \<longrightarrow>
   getUserCollect e = (if truthy (collectFromHttp e) then Inr (collectFromHttp e) else Inl x)"
proof
  assume h: "browser_run e \<and> goto e = Some x"
  then have "collect_try e = (collectFromHttp e, Inl x)" by (simp add: collect_try_def)
  then show "getUserCollect e = (if truthy (collectFromHttp e) then Inr (collectFromHttp e) else Inl x)"
    using h getUserCollect_open [of e] by simp
qed

lemma getUserCollect_wait_throws:
  "browser_run e \<and> goto e = None \<and> waitForTab e = Some x \<longrightarrow>
   getUserCollect e = (if truthy (collectFromHttp e) then Inr (collectFromHttp e) else Inl x)"
proof
  assume h: "browser_run e \<and> goto e = None \<and> waitForTab e = Some x"
  then have "collect_try e = (collectFromHttp e, Inl x)" by (simp add: collect_try_def)
  then show "getUserCollect e = (if truthy (collectFromHttp e) then Inr (collectFromHttp e) else Inl x)"
    using h getUserCollect_open [of e] by simp
qed

lemma getUserCollect_captcha_throws:
  "browser_run e \<and> goto e = None \<and> waitForTab e = None \<and> captcha e = Inl x \<longrightarrow>
   getUserCollect e = (if truthy (collectFromHttp e) then Inr (collectFromHttp e) else Inl x)"
proof
  assume h: "browser_run e \<and> goto e = None \<and> waitForTab e = None \<and> captcha e = Inl x"
  then have "collect_try e = (collectFromHttp e, Inl x)" by (simp add: collect_try_def)
  then show "getUserCollect e = (if truthy (collectFromHttp e) then Inr (collectFromHttp e) else Inl x)"
    using h getUserCollect_open [of e] by simp
qed

lemma getUserCollect_captcha_found:
  "browser_run e \<and> goto e = None \<and> waitForTab e = None \<and> captcha e = Inr True \<longrightarrow>
   getUserCollect e = (if truthy (collectFromHttp e) then Inr (collectFromHttp e)
                       else Inl (CaptchaError captcha_message))"
proof
  assume h: "browser_run e \<and> goto e = None \<and> waitForTab e = None \<and> captcha e = Inr True"
  then have "collect_try e = (collectFromHttp e, Inl (CaptchaError captcha_message))"
    by (simp add: collect_try_def)
  then show "getUserCollect e = (if truthy (collectFromHttp e) then Inr (collectFromHttp e)
                       else Inl (CaptchaError captcha_message))"
    using h getUserCollect_open [of e] by simp
qed

lemma getUserCollect_login_page:
  "browser_run e \<and> goto e = None \<and> waitForTab e = None \<and> captcha e = Inr False
     \<and> onLoginPage e \<longrightarrow>
   getUserCollect e = (if truthy (collectFromHttp e) then Inr (collectFromHttp e)
                       else Inl (InvalidParameterError cookie_needed_message))"
proof
  assume h: "browser_run e \<and> goto e = None \<and> waitForTab e = None \<and> captcha e = Inr False
     \<and> onLoginPage e"
  then have "collect_try e = (collectFromHttp e, Inl (InvalidParameterError cookie_needed_message))"
    by (simp add: collect_try_def)
  then show "getUserCollect e = (if truthy (collectFromHttp e) then Inr (collectFromHttp e)
                       else Inl (InvalidParameterError cookie_needed_message))"
    using h getUserCollect_open [of e] by simp
qed

lemma getUserCollect_ssr_throws:
  "page_loaded e \<and> ssrCollect e = Inl x \<longrightarrow>
   getUserCollect e = (if truthy (collectFromHttp e) then Inr (collectFromHttp e) else Inl x)"
proof
  assume h: "page_loaded e \<and> ssrCollect e = Inl x"
  then have "collect_try e = (collectFromHttp e, Inl x)"
    by (simp add: collect_try_def page_loaded_def)
  then show "getUserCollect e = (if truthy (collectFromHttp e) then Inr (collectFromHttp e) else Inl x)"
    using h getUserCollect_open [of e] by (simp add: page_loaded_def)
qed

lemma getUserCollect_lock_throws:
  "page_loaded e \<and> ssrCollect e = Inr s \<and> \<not> truthy (collectFromHttp e) \<and> \<not> yields s
     \<and> lockIcon e = Some x \<longrightarrow>
   getUserCollect e = Inl x"
proof
  assume h: "page_loaded e \<and> ssrCollect e = Inr s \<and> \<not> truthy (collectFromHttp e) \<and> \<not> yields s
     \<and> lockIcon e = Some x"
  then have f: "\<not> truthy (with_ssr e s)" by (simp add: truthy_chain)
  then have "collect_try e = (with_ssr e s, Inl x)"
    using h by (simp add: collect_try_def page_loaded_def merge_chain)
  then show "getUserCollect e = Inl x"
    using h f getUserCollect_open [of e] by (simp add: page_loaded_def)
qed

lemma getUserCollect_scroll_throws:
  "page_loaded e \<and> ssrCollect e = Inr s
     \<and> (truthy (collectFromHttp e) \<or> yields s \<or> lockIcon e = None) \<and> scroll e = Some x \<longrightarrow>
   getUserCollect e = (if truthy (collectFromHttp e) \<or> yields s then Inr (with_ssr e s)
                       else Inl x)"
proof
  assume h: "page_loaded e \<and> ssrCollect e = Inr s
     \<and> (truthy (collectFromHttp e) \<or> yields s \<or> lockIcon e = None) \<and> scroll e = Some x"
  then have "(if \<not> truthy (with_ssr e s) then lockIcon e else None) = None"
    by (auto simp: truthy_chain)
  then have "collect_try e = (with_ssr e s, Inl x)"
    using h by (simp add: collect_try_def page_loaded_def merge_chain)
  then show "getUserCollect e = (if truthy (collectFromHttp e) \<or> yields s then Inr (with_ssr e s)
                       else Inl x)"
    using h getUserCollect_open [of e] by (simp add: page_loaded_def truthy_chain)
qed

lemma getUserCollect_dom_throws:
  "page_loaded e \<and> ssrCollect e = Inr s
     \<and> (truthy (collectFromHttp e) \<or> yields s \<or> lockIcon e = None) \<and> scroll e = None
     \<and> domCollect e = Inl x \<longrightarrow>
   getUserCollect e =
     (if truthy (collectFromHttp e) \<or> yields s \<or> list_ex yields (collectPayloads e)
      then Inr (with_api e s) else Inl x)"
proof
  assume h: "page_loaded e \<and> ssrCollect e = Inr s
     \<and> (truthy (collectFromHttp e) \<or> yields s \<or> lockIcon e = None) \<and> scroll e = None
     \<and> domCollect e = Inl x"
  then have "(if \<not> truthy (with_ssr e s) then lockIcon e else None) = None"
    by (auto simp: truthy_chain)
  then have "collect_try e = (with_api e s, Inl x)"
    using h by (simp add: collect_try_def page_loaded_def merge_chain)
  then show "getUserCollect e =
     (if truthy (collectFromHttp e) \<or> yields s \<or> list_ex yields (collectPayloads e)
      then Inr (with_api e s) else Inl x)"
    using h getUserCollect_open [of e] by (simp add: page_loaded_def truthy_chain)
qed

lemma getUserCollect_no_throw:
  "page_loaded e \<and> ssrCollect e = Inr s
     \<and> (truthy (collectFromHttp e) \<or> yields s \<or> lockIcon e = None) \<and> scroll e = None
     \<and> domCollect e = Inr d \<longrightarrow>
   getUserCollect e =
     (if truthy (collectFromHttp e) \<or> yields s \<or> list_ex yields (collectPayloads e) \<or> yields d
      then Inr (with_dom e s d) else Inl (InvalidParameterError no_collect_message))"
proof
  assume h: "page_loaded e \<and> ssrCollect e = Inr s
     \<and> (truthy (collectFromHttp e) \<or> yields s \<or> lockIcon e = None) \<and> scroll e = None
     \<and> domCollect e = Inr d"
  then have "(if \<not> truthy (with_ssr e s) then lockIcon e else None) = None"
    by (auto simp: truthy_chain)
  then have "collect_try e =
               (with_dom e s d, if truthy (with_dom e s d) then Inr (with_dom e s d)
                                else Inl (InvalidParameterError no_collect_message))"
    using h by (simp add: collect_try_def page_loaded_def merge_chain Let_def)
  then show "getUserCollect e =
     (if truthy (collectFromHttp e) \<or> yields s \<or> list_ex yields (collectPayloads e) \<or> yields d
      then Inr (with_dom e s d) else Inl (InvalidParameterError no_collect_message))"
    using h getUserCollect_open [of e] by (simp add: page_loaded_def truthy_chain)
qed

subsection \<open>The examples\<close>

lemma quiet_fields [simp]:
  "collectFromHttp quiet_collect = JNull" "openPage quiet_collect = None"
  "goto quiet_collect = None" "waitForTab quiet_collect = None"
  "captcha quiet_collect = Inr False" "onLoginPage quiet_collect = False"
  "ssrCollect quiet_collect = Inr JNull" "lockIcon quiet_collect = None"
  "scroll quiet_collect = None" "collectPayloads quiet_collect = []"
  "domCollect quiet_collect = Inr JNull" "teardown quiet_collect = None"
  "alloc quiet_collect = 100"
  by (simp_all add: quiet_collect_def)

lemma truthy_collect_of [simp]: "truthy (collect_of a ns)"
  by (simp add: collect_of_def)

lemma complete_examples [simp]:
  "\<not> complete_result JNull" "\<not> complete_result (collect_of a ns)"
  by (simp_all add: complete_result_def collect_of_def js_def)

lemma yields_examples [simp]:
  "\<not> yields JNull" "yields (collect_of a ns) \<longleftrightarrow> filter truthy ns \<noteq> []"
  by (simp_all add: yields_def)

lemma merge_into_JNull [simp]: "merge_into a JNull JNull = JNull"
  by (simp add: merge_into_eq)

text \<open>
  C4, as the specification states it, fails on the code: the prior HTTP fetch has
  yielded a note and the pipeline raises because opening the browser page throws; an
  intercepted API payload holds a note and the pipeline raises because the scroll throws
  before the payloads are merged; the SSR state has yielded a note, every step has
  succeeded, and the pipeline raises because the teardown throws.
\<close>

theorem getUserCollect_raises_despite_results:
  "source_notes (collectFromHttp launch_fails) = [note_a]
   \<and> getUserCollect launch_fails = Inl (ErrorObj (js ''Failed to launch the browser process''))
   \<and> map source_notes (collectPayloads scroll_fails) = [[note_a]]
   \<and> getUserCollect scroll_fails = Inl (ErrorObj (js ''Execution context was destroyed''))
   \<and> map_sum id source_notes (ssrCollect teardown_fails) = Inr [note_a]
   \<and> getUserCollect teardown_fails = Inl (ErrorObj (js ''Protocol error: Connection closed''))"
proof (intro conjI)
  have f: "hasMoreCollectFlag (collect_of 10 [note_a]) = JNull"
    by (simp add: hasMoreCollectFlag_def collect_of_def nullish_coalesce_def js_def)
  show "source_notes (collectFromHttp launch_fails) = [note_a]"
    by (simp add: launch_fails_def)
  show "getUserCollect launch_fails = Inl (ErrorObj (js ''Failed to launch the browser process''))"
    by (simp add: getUserCollect_def launch_fails_def f)
  show "map source_notes (collectPayloads scroll_fails) = [[note_a]]"
    by (simp add: scroll_fails_def)
  have "collect_try scroll_fails = (JNull, Inl (ErrorObj (js ''Execution context was destroyed'')))"
    by (simp add: collect_try_def scroll_fails_def)
  then show "getUserCollect scroll_fails = Inl (ErrorObj (js ''Execution context was destroyed''))"
    by (simp add: getUserCollect_def) (simp add: scroll_fails_def)
  show "map_sum id source_notes (ssrCollect teardown_fails) = Inr [note_a]"
    by (simp add: teardown_fails_def)
  show "getUserCollect teardown_fails = Inl (ErrorObj (js ''Protocol error: Connection closed''))"
    by (simp add: getUserCollect_def teardown_fails_def split: prod.splits)
qed

text \<open>
  C4, amended. A complete HTTP result (\<open>has_more\<close> false) is returned at once.
  Otherwise the browser page is opened before the \<open>try\<close> block and torn down in
  \<open>finally\<close>: if opening the page throws, the pipeline raises that error, and if the
  teardown throws, it raises the teardown's error, whatever has been extracted. With the
  page open and the teardown succeeding, a throwing step makes the pipeline return the
  result accumulated so far when that is truthy, and rethrow the step's error otherwise.
  The accumulated result is the HTTP result until a source contributes a note, and from
  then on a new object holding the first-seen-wins merge of the notes of the sources
  merged so far: the HTTP result alone while the page loads (a failing navigation or
  wait, a captcha check that throws or finds the captcha, which throws a \<open>CaptchaError\<close>,
  the login page, which throws an \<open>InvalidParameterError\<close>, a failing SSR read), the
  HTTP and SSR results when the scroll throws, these and the API payloads when the DOM
  scrape throws. The lookup of the lock icon, made only when the HTTP and SSR results
  give nothing, raises its error when it throws. When no step throws, the pipeline
  returns the HTTP result, or the merge of the HTTP, SSR, API and DOM notes once a source
  has contributed a note, and raises the \<open>InvalidParameterError\<close> exactly when the HTTP
  result is falsy and none of the other three yields a note.
\<close>

theorem getUserCollect_partial_results:
  "(complete_result (collectFromHttp e) \<longrightarrow> getUserCollect e = Inr (collectFromHttp e))
   \<and> (\<not> complete_result (collectFromHttp e) \<and> openPage e = Some x \<longrightarrow>
        getUserCollect e = Inl x)
   \<and> (\<not> complete_result (collectFromHttp e) \<and> openPage e = None \<and> teardown e = Some x \<longrightarrow>
        getUserCollect e = Inl x)
   \<and> (browser_run e \<and> goto e = Some x \<longrightarrow>
        getUserCollect e
        = (if truthy (collectFromHttp e) then Inr (collectFromHttp e) else Inl x))
   \<and> (browser_run e \<and> goto e = None \<and> waitForTab e = Some x \<longrightarrow>
        getUserCollect e
        = (if truthy (collectFromHttp e) then Inr (collectFromHttp e) else Inl x))
   \<and> (browser_run e \<and> goto e = None \<and> waitForTab e = None \<and> captcha e = Inl x \<longrightarrow>
        getUserCollect e
        = (if truthy (collectFromHttp e) then Inr (collectFromHttp e) else Inl x))
   \<and> (browser_run e \<and> goto e = None \<and> waitForTab e = None \<and> captcha e = Inr True \<longrightarrow>
        getUserCollect e
        = (if truthy (collectFromHttp e) then Inr (collectFromHttp e)
           else Inl (CaptchaError captcha_message)))
   \<and> (browser_run e \<and> goto e = None \<and> waitForTab e = None \<and> captcha e = Inr False
        \<and> onLoginPage e \<longrightarrow>
        getUserCollect e
        = (if truthy (collectFromHttp e) then Inr (collectFromHttp e)
           else Inl (InvalidParameterError cookie_needed_message)))
   \<and> (page_loaded e \<and> ssrCollect e = Inl x \<longrightarrow>
        getUserCollect e
        = (if truthy (collectFromHttp e) then Inr (collectFromHttp e) else Inl x))
   \<and> (page_loaded e \<and> ssrCollect e = Inr s \<and> \<not> truthy (collectFromHttp e) \<and> \<not> yields s
        \<and> lockIcon e = Some x \<longrightarrow>
        getUserCollect e = Inl x)
   \<and> (page_loaded e \<and> ssrCollect e = Inr s
        \<and> (truthy (collectFromHttp e) \<or> yields s \<or> lockIcon e = None) \<and> scroll e = Some x \<longrightarrow>
        getUserCollect e
        = (if truthy (collectFromHttp e) \<or> yields s then Inr (with_ssr e s) else Inl x))
   \<and> (page_loaded e \<and> ssrCollect e = Inr s
        \<and> (truthy (collectFromHttp e) \<or> yields s \<or> lockIcon e = None) \<and> scroll e = None
        \<and> domCollect e = Inl x \<longrightarrow>
        getUserCollect e
        = (if truthy (collectFromHttp e) \<or> yields s \<or> list_ex yields (collectPayloads e)
           then Inr (with_api e s) else Inl x))
   \<and> (page_loaded e \<and> ssrCollect e = Inr s
        \<and> (truthy (collectFromHttp e) \<or> yields s \<or> lockIcon e = None) \<and> scroll e = None
        \<and> domCollect e = Inr d \<longrightarrow>
        getUserCollect e
        = (if truthy (collectFromHttp e) \<or> yields s \<or> list_ex yields (collectPayloads e)
              \<or> yields d
           then Inr (with_dom e s d) else Inl (InvalidParameterError no_collect_message)))"
  by (intro conjI)
     (rule getUserCollect_early getUserCollect_no_page getUserCollect_teardown_throws
        getUserCollect_goto_throws getUserCollect_wait_throws getUserCollect_captcha_throws
        getUserCollect_captcha_found getUserCollect_login_page getUserCollect_ssr_throws
        getUserCollect_lock_throws getUserCollect_scroll_throws getUserCollect_dom_throws
        getUserCollect_no_throw)+

lemma example_merges:
  "first_seen_wins [note_a] = [note_a]"
  "first_seen_wins [note_b, note_a] = [note_b, note_a]"
  "first_seen_wins [note_b, note_a, note_b, note_a_again, note_plain]
   = [note_b, note_a, note_plain]"
proof -
  have 1: "[0..<1] = [0]" by (simp add: upt_rec)
  have 2: "[0..<2] = [0, 1]" by (simp add: upt_rec)
  have 3: "[0..<3] = [0, 1, 2]" by (simp add: upt_rec)
  have 4: "[0..<4] = [0, 1, 2, 3]" by (simp add: upt_rec)
  have 5: "[0..<5] = [0, 1, 2, 3, 4]" by (simp add: upt_rec)
  show "first_seen_wins [note_a] = [note_a]"
    by (simp add: first_seen_wins_def first_bearer_def 1 example_ids)
  show "first_seen_wins [note_b, note_a] = [note_b, note_a]"
    by (simp add: first_seen_wins_def first_bearer_def 1 2 example_ids js_def)
  show "first_seen_wins [note_b, note_a, note_b, note_a_again, note_plain]
        = [note_b, note_a, note_plain]"
    by (simp add: first_seen_wins_def first_bearer_def 1 2 3 4 5 example_ids js_def)
qed

lemmas example_runs =
  browser_run_def page_loaded_def with_ssr_def with_api_def with_dom_def accumulated_def
  contributed_notes_def example_merges

theorem getUserCollect_partial_results_witness:
  "getUserCollect complete_http
   = Inr (JObj 10 [(js ''data'', JObj 11 [(js ''notes'', JArr 12 [note_a]),
                                          (js ''has_more'', JBool False)])])
   \<and> getUserCollect (quiet_collect\<lparr>openPage := Some (ErrorObj (js ''no browser''))\<rparr>)
     = Inl (ErrorObj (js ''no browser''))
   \<and> getUserCollect (all_succeed\<lparr>teardown := Some (ErrorObj (js ''closed''))\<rparr>)
     = Inl (ErrorObj (js ''closed''))
   \<and> getUserCollect (http_then_throw\<lparr>goto := Some (ErrorObj (js ''net::ERR_FAILED''))\<rparr>)
     = Inr (collect_of 10 [note_a])
   \<and> getUserCollect (quiet_collect\<lparr>waitForTab := Some (ErrorObj (js ''Waiting failed''))\<rparr>)
     = Inl (ErrorObj (js ''Waiting failed''))
   \<and> getUserCollect (quiet_collect\<lparr>captcha := Inl (ErrorObj (js ''detached''))\<rparr>)
     = Inl (ErrorObj (js ''detached''))
   \<and> getUserCollect captcha_shown = Inl (CaptchaError captcha_message)
   \<and> getUserCollect sent_to_login = Inl (InvalidParameterError cookie_needed_message)
   \<and> getUserCollect (http_then_throw\<lparr>ssrCollect := Inl (ErrorObj (js ''detached''))\<rparr>)
     = Inr (collect_of 10 [note_a])
   \<and> getUserCollect (quiet_collect\<lparr>lockIcon := Some (ErrorObj (js ''detached''))\<rparr>)
     = Inl (ErrorObj (js ''detached''))
   \<and> getUserCollect http_then_throw = Inr (collect_of 100 [note_a])
   \<and> getUserCollect ssr_then_throw = Inr (collect_of 106 [note_b, note_a])
   \<and> getUserCollect all_succeed = Inr (collect_of 109 [note_b, note_a, note_plain])
   \<and> getUserCollect quiet_collect = Inl (InvalidParameterError no_collect_message)"
proof (intro conjI)
  show "getUserCollect complete_http
        = Inr (JObj 10 [(js ''data'', JObj 11 [(js ''notes'', JArr 12 [note_a]),
                                               (js ''has_more'', JBool False)])])"
    using getUserCollect_partial_results [of complete_http]
    by (simp add: complete_http_def complete_result_def js_def)
  show "getUserCollect (quiet_collect\<lparr>openPage := Some (ErrorObj (js ''no browser''))\<rparr>)
        = Inl (ErrorObj (js ''no browser''))"
    using getUserCollect_partial_results
            [of "quiet_collect\<lparr>openPage := Some (ErrorObj (js ''no browser''))\<rparr>"
                "ErrorObj (js ''no browser'')"]
    by simp
  show "getUserCollect (all_succeed\<lparr>teardown := Some (ErrorObj (js ''closed''))\<rparr>)
        = Inl (ErrorObj (js ''closed''))"
    using getUserCollect_partial_results
            [of "all_succeed\<lparr>teardown := Some (ErrorObj (js ''closed''))\<rparr>"
                "ErrorObj (js ''closed'')"]
    by (simp add: all_succeed_def)
  show "getUserCollect (http_then_throw\<lparr>goto := Some (ErrorObj (js ''net::ERR_FAILED''))\<rparr>)
        = Inr (collect_of 10 [note_a])"
    using getUserCollect_partial_results
            [of "http_then_throw\<lparr>goto := Some (ErrorObj (js ''net::ERR_FAILED''))\<rparr>"
                "ErrorObj (js ''net::ERR_FAILED'')"]
    by (simp add: http_then_throw_def example_runs)
  show "getUserCollect (quiet_collect\<lparr>waitForTab := Some (ErrorObj (js ''Waiting failed''))\<rparr>)
        = Inl (ErrorObj (js ''Waiting failed''))"
    using getUserCollect_partial_results
            [of "quiet_collect\<lparr>waitForTab := Some (ErrorObj (js ''Waiting failed''))\<rparr>"
                "ErrorObj (js ''Waiting failed'')"]
    by (simp add: example_runs)
  show "getUserCollect (quiet_collect\<lparr>captcha := Inl (ErrorObj (js ''detached''))\<rparr>)
        = Inl (ErrorObj (js ''detached''))"
    using getUserCollect_partial_results
            [of "quiet_collect\<lparr>captcha := Inl (ErrorObj (js ''detached''))\<rparr>"
                "ErrorObj (js ''detached'')"]
    by (simp add: example_runs)
  show "getUserCollect captcha_shown = Inl (CaptchaError captcha_message)"
    using getUserCollect_partial_results [of captcha_shown]
    by (simp add: captcha_shown_def example_runs)
  show "getUserCollect sent_to_login = Inl (InvalidParameterError cookie_needed_message)"
    using getUserCollect_partial_results [of sent_to_login]
    by (simp add: sent_to_login_def example_runs)
  show "getUserCollect (http_then_throw\<lparr>ssrCollect := Inl (ErrorObj (js ''detached''))\<rparr>)
        = Inr (collect_of 10 [note_a])"
    using getUserCollect_partial_results
            [of "http_then_throw\<lparr>ssrCollect := Inl (ErrorObj (js ''detached''))\<rparr>"
                "ErrorObj (js ''detached'')"]
    by (simp add: http_then_throw_def example_runs)
  show "getUserCollect (quiet_collect\<lparr>lockIcon := Some (ErrorObj (js ''detached''))\<rparr>)
        = Inl (ErrorObj (js ''detached''))"
    using getUserCollect_partial_results
            [of "quiet_collect\<lparr>lockIcon := Some (ErrorObj (js ''detached''))\<rparr>"
                "ErrorObj (js ''detached'')" JNull]
    by (simp add: example_runs)
  show "getUserCollect http_then_throw = Inr (collect_of 100 [note_a])"
    using getUserCollect_partial_results
            [of http_then_throw "ErrorObj (js ''Execution context was destroyed'')" JNull]
    by (simp add: http_then_throw_def example_runs)
  show "getUserCollect ssr_then_throw = Inr (collect_of 106 [note_b, note_a])"
    using getUserCollect_partial_results
            [of ssr_then_throw "ErrorObj (js ''Execution context was destroyed'')"
                "collect_of 10 [note_b]"]
    by (simp add: ssr_then_throw_def example_runs)
  show "getUserCollect all_succeed = Inr (collect_of 109 [note_b, note_a, note_plain])"
    using getUserCollect_partial_results
            [of all_succeed _ "collect_of 10 [note_b]" "collect_of 30 [note_a_again, note_plain]"]
    by (simp add: all_succeed_def example_runs)
  show "getUserCollect quiet_collect = Inl (InvalidParameterError no_collect_message)"
    using getUserCollect_partial_results [of quiet_collect _ JNull JNull]
    by (simp add: example_runs)
qed
section \<open>Schedules\<close>

subsection \<open>What holds when every read settles at once\<close>

lemma resume_rejected:
  assumes "page_cookies e = Inl err"
  shows "status (heap (monitorSession_resume e r w) r) = Failed"
    "error (heap (monitorSession_resume e r w) r) = Some (message_of err)"
    "cookie (heap (monitorSession_resume e r w) r) = cookie (heap w r)"
    "loginSessions (monitorSession_resume e r w) = loginSessions w"
  using assms
  by (simp_all add: monitorSession_resume_def Let_def cleanup_keeps_projection update_session_def)

lemma resume_logged_in:
  assumes "page_cookies e = Inr cs" "list_ex (\<lambda>c. cookie_name c = js ''web_session'') cs"
  shows "status (heap (monitorSession_resume e r w) r) = Success"
    "cookie (heap (monitorSession_resume e r w) r)
       = Some (join (js ''; '') (map (\<lambda>c. cookie_name c @ js ''='' @ cookie_value c) cs))"
    "error (heap (monitorSession_resume e r w) r) = error (heap w r)"
    "loginSessions (monitorSession_resume e r w) = loginSessions w"
  using assms
  by (simp_all add: monitorSession_resume_def Let_def cleanup_keeps_projection update_session_def)

lemma resume_other_sessions:
  "q \<noteq> r \<Longrightarrow> status (heap (monitorSession_resume e r w) q) = status (heap w q)
     \<and> cookie (heap (monitorSession_resume e r w) q) = cookie (heap w q)
     \<and> error (heap (monitorSession_resume e r w) q) = error (heap w q)"
  by (simp add: monitorSession_resume_def Let_def cleanup_keeps_projection update_session_def
      split: sum.splits)

text \<open>
  A monitor tick whose read settles before anything else runs, an expiry, a cleanup, a
  session creation and a QR request each keep the payload invariant of every session.
\<close>

lemma monitorSession_keeps_payload:
  assumes "\<forall>q. payload_ok (heap w q)"
  shows "payload_ok (heap (monitorSession e w sessionId) q)"
proof (cases "monitorSession_guard w sessionId")
  case None
  then show ?thesis using assms by (simp add: monitorSession_def)
next
  case (Some rd)
  obtain r p where rd: "rd = (r, p)" by (cases rd)
  have pend: "status (heap w r) = Pending"
    using Some rd by (auto simp: monitorSession_guard_def split: option.splits if_splits)
  then have cn: "cookie (heap w r) = None" and en: "error (heap w r) = None"
    using assms [rule_format, of r] by (auto simp: payload_ok_def)
  have m: "monitorSession e w sessionId = monitorSession_resume e r w"
    using Some rd by (simp add: monitorSession_def)
  show ?thesis
  proof (cases "q = r")
    case False
    then show ?thesis
      using assms [rule_format, of q] resume_other_sessions [of q r e w]
      by (simp add: m payload_ok_def)
  next
    case True
    show ?thesis
    proof (cases "page_cookies e")
      case (Inl err)
      then show ?thesis using resume_rejected [OF Inl, of r w] cn True
        by (simp add: m payload_ok_def)
    next
      case (Inr cs)
      show ?thesis
      proof (cases "list_ex (\<lambda>c. cookie_name c = js ''web_session'') cs")
        case True
        then show ?thesis using resume_logged_in [OF Inr True, of r w] en \<open>q = r\<close>
          by (simp add: m payload_ok_def)
      next
        case False
        then have "monitorSession_resume e r w = w"
          using Inr by (simp add: monitorSession_resume_def)
        then show ?thesis using assms by (simp add: m)
      qed
    qed
  qed
qed

lemma markSessionExpired_keeps_payload:
  assumes "\<forall>q. payload_ok (heap w q)"
  shows "payload_ok (heap (markSessionExpired e w sessionId) q)"
  using assms [rule_format, of q] assms
  by (auto simp: markSessionExpired_def Let_def payload_ok_def cleanup_keeps_projection
      update_session_def split: option.splits)

lemma cleanup_keeps_payload:
  "payload_ok (heap (cleanupSessionResources e r w) q) = payload_ok (heap w q)"
  by (simp add: payload_ok_def cleanup_keeps_projection)

lemma create_keeps_payload:
  assumes "\<forall>q. payload_ok (heap w q)"
  shows "payload_ok (heap (fst (createLoginSession e w)) q)"
  using assms [rule_format, of q]
  by (auto simp: createLoginSession_def Let_def payload_ok_def arm_timer_def update_session_def
      split: sum.splits option.splits prod.splits)

text \<open>
  An operation that starts when a session is already in a terminal state (a request,
  a timer firing) does not change that session's status: the guards hold. Only the
  continuation of a read that was pending can.
\<close>

lemma create_keeps_old_sessions:
  "r < nextRef w \<Longrightarrow> heap (fst (createLoginSession e w)) r = heap w r"
  by (auto simp: createLoginSession_def Let_def arm_timer_def update_session_def
      split: sum.splits option.splits prod.splits)

lemma begin_keeps_heap: "heap (monitorSession_begin w sessionId) = heap w"
  by (simp add: monitorSession_begin_def split: option.splits)

lemma expired_keeps_terminal:
  "status (heap w r) \<noteq> Pending \<Longrightarrow>
   status (heap (markSessionExpired e w sessionId) r) = status (heap w r)"
  by (auto simp: markSessionExpired_def Let_def cleanup_keeps_projection update_session_def
      split: option.splits)

lemma callback_keeps_terminal:
  "status (heap w r) \<noteq> Pending \<Longrightarrow>
   status (heap (run_callback e cb w) r) = status (heap w r)"
  by (cases cb) (simp_all add: begin_keeps_heap expired_keeps_terminal)

lemma new_operations_keep_terminal:
  assumes "status (heap w r) \<noteq> Pending" "r < nextRef w" "\<forall>n. ev \<noteq> Settle n"
  shows "status (heap (step (e, ev) w) r) = status (heap w r)"
proof (cases ev)
  case (Get sessionId action)
  have "heap (fst (handler e w sessionId action)) r = heap w r"
    using assms(2) create_keeps_old_sessions [of r w e]
    by (simp add: handler_def split_beta serveQRCode_keeps_sessions
        split: sum.splits option.splits)
  then show ?thesis using Get by simp
next
  case (Fire t)
  have c: "status (heap (clear_timer t w) r) \<noteq> Pending" using assms(1) by (simp add: clear_timer_def)
  show ?thesis
    using Fire assms(1) callback_keeps_terminal [OF assms(1)] callback_keeps_terminal [OF c]
    by (auto simp: clear_timer_def split: option.splits timer_kind.splits)
next
  case (Settle n)
  then show ?thesis using assms(3) by simp
qed

subsection \<open>The two schedules\<close>

lemma create_step: "step (example_env, Get None None) initial_world = example_world"
  by (simp add: handler_def example_world_def split: prod.splits sum.splits)

lemma tick_step:
  "step (example_env, Fire 0) (example_world\<lparr>pendingReads := rs\<rparr>)
   = example_world\<lparr>pendingReads := rs @ [(0, 7)]\<rparr>"
  by (simp add: monitorSession_begin_def monitorSession_guard_def)

lemma tick_first:
  "step (example_env, Fire 0) example_world = example_world\<lparr>pendingReads := [(0, 7)]\<rparr>"
  by (simp add: monitorSession_begin_def monitorSession_guard_def)

lemma tick_second:
  "step (example_env, Fire 0) (example_world\<lparr>pendingReads := [(0, 7)]\<rparr>)
   = example_world\<lparr>pendingReads := [(0, 7), (0, 7)]\<rparr>"
  using tick_step [of "[(0, 7)]"] by (simp only: append_Cons append_Nil)

lemma settle_only_read:
  "pendingReads w = [(r, p)] \<Longrightarrow>
   step (e, Settle 0) w = monitorSession_resume e r (w\<lparr>pendingReads := []\<rparr>)"
  by simp

lemma settle_first_of_two:
  "pendingReads w = [(r, p), (r', p')] \<Longrightarrow>
   step (e, Settle 0) w = monitorSession_resume e r (w\<lparr>pendingReads := [(r', p')]\<rparr>)"
  by simp

lemma cleanup_keeps_reads:
  "pendingReads (cleanupSessionResources e r w) = pendingReads w"
  by (simp add: cleanup_defs Let_def split: option.splits prod.splits)

lemma resume_keeps_reads:
  "pendingReads (monitorSession_resume e r w) = pendingReads w"
  by (simp add: monitorSession_resume_def Let_def cleanup_keeps_reads update_session_def
      split: sum.splits)

lemma logged_in_cookies:
  "page_cookies logged_in = Inr [\<lparr>cookie_name = js ''web_session'', cookie_value = js ''abc''\<rparr>]"
  "page_cookies page_closed = Inl (ErrorObj (js ''Target closed''))"
  by (simp_all add: logged_in_def page_closed_def)

lemma two_ticks:
  "run (take 3 overlapping_ticks) initial_world = example_world\<lparr>pendingReads := [(0, 7), (0, 7)]\<rparr>"
  by (simp add: overlapping_ticks_def create_step tick_first tick_second del: step.simps)

lemma after_login:
  "run (take 4 overlapping_ticks) initial_world
   = monitorSession_resume logged_in 0 (example_world\<lparr>pendingReads := [(0, 7)]\<rparr>)"
proof -
  have "run (take 4 overlapping_ticks) initial_world
        = step (logged_in, Settle 0) (run (take 3 overlapping_ticks) initial_world)"
    by (simp add: overlapping_ticks_def del: step.simps)
  then show ?thesis
    unfolding two_ticks by (simp add: settle_first_of_two [of _ 0 7 0 7] del: step.simps)
qed

lemma after_login_session:
  "status (heap (run (take 4 overlapping_ticks) initial_world) 0) = Success"
  "cookie (heap (run (take 4 overlapping_ticks) initial_world) 0) = Some (js ''web_session=abc'')"
  "error (heap (run (take 4 overlapping_ticks) initial_world) 0) = None"
  "pendingReads (run (take 4 overlapping_ticks) initial_world) = [(0, 7)]"
  "loginSessions (run (take 4 overlapping_ticks) initial_world) = [js ''s1'' \<mapsto> 0]"
  unfolding after_login
  using resume_logged_in [OF logged_in_cookies(1), of 0 "example_world\<lparr>pendingReads := [(0, 7)]\<rparr>"]
  by (simp_all add: resume_keeps_reads js_def)

lemma after_rejection:
  "run overlapping_ticks initial_world
   = monitorSession_resume page_closed 0
       ((run (take 4 overlapping_ticks) initial_world)\<lparr>pendingReads := []\<rparr>)"
proof -
  have "run overlapping_ticks initial_world
        = step (page_closed, Settle 0) (run (take 4 overlapping_ticks) initial_world)"
    by (simp add: overlapping_ticks_def del: step.simps)
  then show ?thesis
    using settle_only_read [OF after_login_session(4), of page_closed] by simp
qed

text \<open>
  C1 fails on the code. The monitor interval fires a second time while the first
  \<open>cookies()\<close> read is still pending; both ticks pass the guard. The first read
  resolves with the \<open>web_session\<close> cookie: the session becomes \<open>success\<close> with its
  cookie, and the cleanup closes the page. The second read then rejects, and its
  \<open>catch\<close> block, which does not look at the status again, sets \<open>failed\<close> and the
  error. The session in the table ends \<open>failed\<close> with both a cookie and an error, and
  the status poll reports \<open>failed\<close> for a login that succeeded.
\<close>

theorem overlapping_ticks_break_payload_invariant:
  "loginSessions (run overlapping_ticks initial_world) (js ''s1'') = Some 0
   \<and> status (heap (run (take 4 overlapping_ticks) initial_world) 0) = Success
   \<and> status (heap (run overlapping_ticks initial_world) 0) = Failed
   \<and> cookie (heap (run overlapping_ticks initial_world) 0) = Some (js ''web_session=abc'')
   \<and> error (heap (run overlapping_ticks initial_world) 0) = Some (js ''Target closed'')
   \<and> \<not> payload_ok (heap (run overlapping_ticks initial_world) 0)
   \<and> serveStatus (run overlapping_ticks initial_world) (js ''s1'')
     = Response 200
         (StatusBody \<lparr>body_id = js ''s1'', body_status = Failed, body_cookie = None,
                      body_error = Some (js ''Target closed''), body_expiresAt = 301000\<rparr>)"
proof -
  let ?w4 = "(run (take 4 overlapping_ticks) initial_world)\<lparr>pendingReads := []\<rparr>"
  let ?w = "run overlapping_ticks initial_world"
  have t: "loginSessions ?w = [js ''s1'' \<mapsto> 0]"
    unfolding after_rejection
    using resume_rejected(4) [OF logged_in_cookies(2), of 0 ?w4] after_login_session(5) by simp
  have s: "status (heap ?w 0) = Failed"
    unfolding after_rejection by (rule resume_rejected(1) [OF logged_in_cookies(2)])
  have c: "cookie (heap ?w 0) = Some (js ''web_session=abc'')"
    unfolding after_rejection
    using resume_rejected(3) [OF logged_in_cookies(2), of 0 ?w4] after_login_session(2) by simp
  have e: "error (heap ?w 0) = Some (js ''Target closed'')"
    unfolding after_rejection
    using resume_rejected(2) [OF logged_in_cookies(2), of 0 ?w4] by simp
  have i: "session_id (heap ?w 0) = js ''s1''" "createdAt (heap ?w 0) = 1000"
    unfolding after_rejection after_login
    by (simp_all add: monitorSession_resume_def Let_def cleanup_keeps_projection update_session_def
        logged_in_cookies js_def)
  have p: "serveStatus ?w (js ''s1'')
     = Response 200
         (StatusBody \<lparr>body_id = js ''s1'', body_status = Failed, body_cookie = None,
                      body_error = Some (js ''Target closed''), body_expiresAt = 301000\<rparr>)"
    by (simp add: serveStatus_def t s e i SESSION_TTL_def Let_def)
  show ?thesis
    using t s c e p after_login_session(1) by (simp add: payload_ok_def)
qed

lemma expire_step:
  "status (heap (step (example_env, Fire 1) (example_world\<lparr>pendingReads := [(0, 7)]\<rparr>)) 0) = Expired"
  "error (heap (step (example_env, Fire 1) (example_world\<lparr>pendingReads := [(0, 7)]\<rparr>)) 0) = None"
  "page (heap (step (example_env, Fire 1) (example_world\<lparr>pendingReads := [(0, 7)]\<rparr>)) 0) = None"
  "pendingReads (step (example_env, Fire 1) (example_world\<lparr>pendingReads := [(0, 7)]\<rparr>)) = [(0, 7)]"
  "teardowns (step (example_env, Fire 1) (example_world\<lparr>pendingReads := [(0, 7)]\<rparr>)) = [9]"
  by (simp_all add: markSessionExpired_def clear_timer_def cleanup_keeps_projection
      cleanup_keeps_reads update_session_def Let_def)
     (simp_all add: cleanup_defs Let_def example_env_def)

lemma expired_prefix:
  "run (take 3 tick_across_expiry) initial_world
   = step (example_env, Fire 1) (example_world\<lparr>pendingReads := [(0, 7)]\<rparr>)"
  by (simp add: tick_across_expiry_def create_step tick_first del: step.simps)

lemma expired_then_settled:
  "run tick_across_expiry initial_world
   = monitorSession_resume page_closed 0
       ((run (take 3 tick_across_expiry) initial_world)\<lparr>pendingReads := []\<rparr>)"
proof -
  have "run tick_across_expiry initial_world
        = step (page_closed, Settle 0) (run (take 3 tick_across_expiry) initial_world)"
    by (simp add: tick_across_expiry_def del: step.simps)
  moreover have "pendingReads (run (take 3 tick_across_expiry) initial_world) = [(0, 7)]"
    unfolding expired_prefix by (rule expire_step(4))
  ultimately show ?thesis
    using settle_only_read [of "run (take 3 tick_across_expiry) initial_world" 0 7 page_closed]
    by simp
qed

text \<open>
  C2 fails on the code. A monitor tick passes the guard while the session is
  \<open>pending\<close> and awaits \<open>cookies()\<close>. The expire timer fires: the session becomes
  \<open>expired\<close> and the cleanup closes the page. The pending read then rejects, and the
  \<open>catch\<close> block of the tick sets \<open>failed\<close> without looking at the status again:
  the session goes from \<open>expired\<close> to \<open>failed\<close>.
\<close>

theorem expired_session_becomes_failed:
  "status (heap (run (take 3 tick_across_expiry) initial_world) 0) = Expired
   \<and> page (heap (run (take 3 tick_across_expiry) initial_world) 0) = None
   \<and> teardowns (run (take 3 tick_across_expiry) initial_world) = [9]
   \<and> status (heap (run tick_across_expiry initial_world) 0) = Failed
   \<and> error (heap (run tick_across_expiry initial_world) 0) = Some (js ''Target closed'')"
proof -
  let ?w3 = "(run (take 3 tick_across_expiry) initial_world)\<lparr>pendingReads := []\<rparr>"
  have a: "status (heap (run (take 3 tick_across_expiry) initial_world) 0) = Expired"
    "page (heap (run (take 3 tick_across_expiry) initial_world) 0) = None"
    "teardowns (run (take 3 tick_across_expiry) initial_world) = [9]"
    unfolding expired_prefix by (rule expire_step)+
  have b: "status (heap (run tick_across_expiry initial_world) 0) = Failed"
    unfolding expired_then_settled by (rule resume_rejected(1) [OF logged_in_cookies(2)])
  have c: "error (heap (run tick_across_expiry initial_world) 0) = Some (js ''Target closed'')"
    unfolding expired_then_settled
    using resume_rejected(2) [OF logged_in_cookies(2), of 0 ?w3] by simp
  from a b c show ?thesis by simp
qed

end
